theory Spec2Isabelle
  imports Main "HOL-Library.Sublist"
begin

section \<open>Python values and string operations used by the script\<close>

text \<open>
  Scalar Python values that reach a truth test, a \<^verbatim>\<open>str()\<close> call or a worksheet cell:
  \<^verbatim>\<open>None\<close>, an integer or a string.
\<close>

datatype pyval = PNone | PInt int | PStr string

fun truthy :: "pyval \<Rightarrow> bool" where
  "truthy PNone = False"
| "truthy (PInt n) = (n \<noteq> 0)"
| "truthy (PStr s) = (s \<noteq> [])"

definition digit_char :: "nat \<Rightarrow> char" where
  "digit_char d = char_of (48 + d)"

fun str_nat :: "nat \<Rightarrow> string" where
  "str_nat n = (if n < 10 then [digit_char n] else str_nat (n div 10) @ [digit_char (n mod 10)])"

definition str_int :: "int \<Rightarrow> string" where
  "str_int i = (if i < 0 then CHR ''-'' # str_nat (nat (- i)) else str_nat (nat i))"

text \<open>\<^verbatim>\<open>str(v)\<close>.\<close>

fun py_str :: "pyval \<Rightarrow> string" where
  "py_str PNone = ''None''"
| "py_str (PInt n) = str_int n"
| "py_str (PStr s) = s"

text \<open>\<^verbatim>\<open>sub in s\<close> on strings.\<close>

fun contains :: "string \<Rightarrow> string \<Rightarrow> bool" where
  "contains sub [] = (sub = [])"
| "contains sub (c # cs) = (prefix sub (c # cs) \<or> contains sub cs)"

text \<open>\<^verbatim>\<open>sep.join(xs)\<close>.\<close>

fun join :: "string \<Rightarrow> string list \<Rightarrow> string" where
  "join sep [] = []"
| "join sep [x] = x"
| "join sep (x # y # ys) = x @ sep @ join sep (y # ys)"

definition newline :: string where
  "newline = [CHR 0x0A]"

text \<open>
  \<^verbatim>\<open>s.split("//")\<close>: the pieces between the occurrences of the separator, scanned from
  the left; the first argument holds the current piece, reversed.
\<close>

fun split_slashes :: "string \<Rightarrow> string \<Rightarrow> string list" where
  "split_slashes acc (c # d # cs) =
     (if c = CHR ''/'' \<and> d = CHR ''/'' then rev acc # split_slashes [] cs
      else split_slashes (c # acc) (d # cs))"
| "split_slashes acc [c] = [rev (c # acc)]"
| "split_slashes acc [] = [rev acc]"

text \<open>
  \<^verbatim>\<open>s.replace("\\?\\", "")\<close>: every occurrence of backslash, question mark, backslash
  is removed, scanning from the left.
\<close>

fun strip_long_prefix :: "string \<Rightarrow> string" where
  "strip_long_prefix (a # b # c # cs) =
     (if a = CHR 0x5C \<and> b = CHR ''?'' \<and> c = CHR 0x5C then strip_long_prefix cs
      else a # strip_long_prefix (b # c # cs))"
| "strip_long_prefix cs = cs"

section \<open>Data of the two collaborators\<close>

subsection \<open>The library server\<close>

text \<open>
  An episode object of the library server. \<open>iterParts\<close> lists what the loop over
  \<^verbatim>\<open>episode.iterParts()\<close> meets, in order: \<open>Inr file\<close> is a media part with that file,
  \<open>Inl msg\<close> is an exception raised while the part or its file is fetched.
  Season and episode numbers may be \<^verbatim>\<open>None\<close>.
\<close>

record plex_episode =
  seasonNumber :: "int option"
  index :: "int option"
  iterParts :: "(string + string) list"
  locations :: "string list"

text \<open>
  What \<^verbatim>\<open>plex_episodes[season][episode]\<close> holds: the episode object stored at the first
  occurrence, and its attribute \<^verbatim>\<open>combined_locations\<close> (\<open>None\<close>: the attribute was never
  set).
\<close>

record stored_episode =
  stored :: plex_episode
  combined_locations :: "string list option"

record inventory =
  plex_episodes :: "int option \<rightharpoonup> (int option \<rightharpoonup> stored_episode)"
  plex_episodes_count :: "int option \<rightharpoonup> (int option \<rightharpoonup> nat)"

subsection \<open>The catalog\<close>

text \<open>
  The catalog answers in JSON. The containers the script walks are typed as the data
  model has them; a number or a date it reads with \<^verbatim>\<open>.get(key)\<close> is an option (\<open>None\<close>:
  the key is missing or null). A name is read with \<^verbatim>\<open>.get("name", "")\<close> (lines 303 and
  314), which gives the default only when the key is missing: the field is \<open>None\<close> when the
  key is missing and otherwise the value the catalog sent, which may be null (\<open>PNone\<close>).
  The \<^verbatim>\<open>type\<close> of a season of the series record is kept as a JSON value, \<open>None\<close> when the
  key is missing, because the two places that read it (lines 182 and 297) take it apart
  differently.
\<close>

datatype json =
  JNull | JBool bool | JNum int | JStr string | JArr "json list" | JObj "(string \<times> json) list"

record series_season =
  season_id :: "int option"
  season_number :: "int option"
  season_type :: "json option"

record series_data =
  series_seasons :: "series_season list"

record episode_data =
  ep_number :: "int option"
  ep_name :: "pyval option"
  ep_aired :: "string option"

record season_data =
  s_number :: "int option"
  s_name :: "pyval option"
  s_episodes :: "episode_data list"

record tvdb_data =
  series :: series_data
  seasons :: "season_data list"

subsection \<open>The report\<close>

text \<open>
  A worksheet is the sequence of the write calls made on it, oldest first: row, column and
  what was written by which method. The cell a reader sees is the last write at its
  position.
\<close>

datatype cell = WriteString string | Write pyval | WriteBoolean bool | WriteHeader string

type_synonym sheet = "(nat \<times> nat \<times> cell) list"

definition cell_at :: "sheet \<Rightarrow> nat \<Rightarrow> nat \<Rightarrow> cell option" where
  "cell_at sh row col = map_of (rev (map (\<lambda>(r, c, v). ((r, c), v)) sh)) (row, col)"

definition py_int_opt :: "int option \<Rightarrow> pyval" where
  "py_int_opt n = (case n of None \<Rightarrow> PNone | Some i \<Rightarrow> PInt i)"

text \<open>
  The three write methods the script calls. \<^verbatim>\<open>write_string\<close> takes the length of its
  argument before anything else, so for a value that is not a string it raises
  \<^verbatim>\<open>TypeError\<close> and writes nothing; \<^verbatim>\<open>write\<close> takes any of the values and
  \<^verbatim>\<open>write_boolean\<close> a truth value.
\<close>

datatype write_call = CallWriteString pyval | CallWrite pyval | CallWriteBoolean bool

definition len_error :: "pyval \<Rightarrow> string" where
  "len_error v =
     (case v of
        PNone \<Rightarrow> ''object of type 'NoneType' has no len()''
      | PInt i \<Rightarrow> ''object of type 'int' has no len()''
      | PStr s \<Rightarrow> [])"

text \<open>One call at a position: the exception it raises, or the sheet with the write.\<close>

fun perform :: "write_call \<Rightarrow> nat \<Rightarrow> nat \<Rightarrow> sheet \<Rightarrow> string + sheet" where
  "perform (CallWriteString (PStr s)) row col sh = Inr (sh @ [(row, col, WriteString s)])"
| "perform (CallWriteString v) row col sh = Inl (len_error v)"
| "perform (CallWrite v) row col sh = Inr (sh @ [(row, col, Write v)])"
| "perform (CallWriteBoolean b) row col sh = Inr (sh @ [(row, col, WriteBoolean b)])"

text \<open>
  Calls one after the other on the cells of one row, from column \<open>col\<close> on. The first call
  that raises ends the sequence: the result is the sheet with the writes made until then,
  and the exception, if one was raised.
\<close>

fun write_cells :: "nat \<Rightarrow> nat \<Rightarrow> write_call list \<Rightarrow> sheet \<Rightarrow> sheet \<times> string option" where
  "write_cells row col [] sh = (sh, None)"
| "write_cells row col (call # calls) sh =
     (case perform call row col sh of
        Inl e \<Rightarrow> (sh, Some e)
      | Inr sh' \<Rightarrow> write_cells row (col + 1) calls sh')"

section \<open>Inventory building (process_show, lines 245 to 290)\<close>

definition empty_inventory :: inventory where
  "empty_inventory = \<lparr>plex_episodes = Map.empty, plex_episodes_count = Map.empty\<rparr>"

text \<open>Lines 257 to 259: the two season dictionaries are created together.\<close>

definition ensure_season :: "int option \<Rightarrow> inventory \<Rightarrow> inventory" where
  "ensure_season season_num iv =
     (case plex_episodes iv season_num of
        None \<Rightarrow> iv\<lparr>plex_episodes := (plex_episodes iv)(season_num \<mapsto> Map.empty),
                    plex_episodes_count := (plex_episodes_count iv)(season_num \<mapsto> Map.empty)\<rparr>
      | Some _ \<Rightarrow> iv)"

text \<open>
  Lines 262 to 286, the body of the loop over the media parts, for one part whose file was
  fetched. \<open>absolute\<close> is \<^verbatim>\<open>str(Path(p).absolute())\<close>, a function of the platform.
  A missing season dictionary is Python's \<^verbatim>\<open>KeyError\<close>, raised before anything is changed.
\<close>

definition add_part ::
  "(string \<Rightarrow> string) \<Rightarrow> plex_episode \<Rightarrow> string \<Rightarrow> inventory \<Rightarrow> string + inventory" where
  "add_part absolute episode file iv =
     (let season_num = seasonNumber episode;
          episode_num = index episode;
          episode_file_path = absolute (strip_long_prefix file)
      in case plex_episodes_count iv season_num of
           None \<Rightarrow> Inl ''KeyError''
         | Some counts \<Rightarrow>
             (case plex_episodes iv season_num of
                None \<Rightarrow> Inl ''KeyError''
              | Some eps \<Rightarrow>
                  let counts' = counts(episode_num \<mapsto>
                        (case counts episode_num of None \<Rightarrow> 1 | Some n \<Rightarrow> n + 1));
                      eps' =
                        (case eps episode_num of
                           Some existing_ep \<Rightarrow>
                             if locations episode \<noteq> [] then
                               eps(episode_num \<mapsto> existing_ep\<lparr>combined_locations :=
                                 (case combined_locations existing_ep of
                                    Some cl \<Rightarrow> Some (cl @ [episode_file_path])
                                  | None \<Rightarrow> Some [episode_file_path])\<rparr>)
                             else eps
                         | None \<Rightarrow>
                             eps(episode_num \<mapsto>
                               \<lparr>stored = episode,
                                combined_locations =
                                  (if locations episode \<noteq> [] then Some [episode_file_path]
                                   else None)\<rparr>))
                  in Inr (iv\<lparr>plex_episodes := (plex_episodes iv)(season_num \<mapsto> eps'),
                              plex_episodes_count :=
                                (plex_episodes_count iv)(season_num \<mapsto> counts')\<rparr>)))"

text \<open>
  The loop over the parts of one episode. The result is the inventory as it stands when
  the loop ends, and the message of the exception that ended it, if one did: the
  dictionaries are updated in place, so what was added before an exception stays.
\<close>

fun add_parts ::
  "(string \<Rightarrow> string) \<Rightarrow> plex_episode \<Rightarrow> (string + string) list \<Rightarrow> inventory
     \<Rightarrow> inventory \<times> string option" where
  "add_parts absolute episode [] iv = (iv, None)"
| "add_parts absolute episode (Inl e # ps) iv = (iv, Some e)"
| "add_parts absolute episode (Inr file # ps) iv =
     (case add_part absolute episode file iv of
        Inl e \<Rightarrow> (iv, Some e)
      | Inr iv' \<Rightarrow> add_parts absolute episode ps iv')"

text \<open>The loop over the episodes (line 253); an exception leaves it at once.\<close>

fun add_episodes ::
  "(string \<Rightarrow> string) \<Rightarrow> plex_episode list \<Rightarrow> inventory \<Rightarrow> inventory \<times> string option" where
  "add_episodes absolute [] iv = (iv, None)"
| "add_episodes absolute (episode # episodes) iv =
     (case add_parts absolute episode (iterParts episode)
             (ensure_season (seasonNumber episode) iv) of
        (iv', Some e) \<Rightarrow> (iv', Some e)
      | (iv', None) \<Rightarrow> add_episodes absolute episodes iv')"

text \<open>
  Lines 245 to 290. \<open>show_episodes\<close> is the outcome of \<^verbatim>\<open>show.episodes()\<close>. The
  \<^verbatim>\<open>except\<close> clause of line 289 only prints, so the inventory built so far is what the
  reconciliation gets.
\<close>

definition build_inventory ::
  "(string \<Rightarrow> string) \<Rightarrow> string + plex_episode list \<Rightarrow> inventory" where
  "build_inventory absolute show_episodes =
     (case show_episodes of
        Inl e \<Rightarrow> empty_inventory
      | Inr episodes \<Rightarrow> fst (add_episodes absolute episodes empty_inventory))"

section \<open>Classification of a canonical episode (process_show, lines 321 to 338)\<close>

text \<open>The result is \<open>(is_missing, is_duplicate, file_path)\<close>.\<close>

definition classify :: "inventory \<Rightarrow> int option \<Rightarrow> int option \<Rightarrow> bool \<times> bool \<times> string" where
  "classify iv season_num episode_num =
     (case plex_episodes iv season_num of
        None \<Rightarrow> (True, False, [])
      | Some eps \<Rightarrow>
          (case eps episode_num of
             None \<Rightarrow> (True, False, [])
           | Some plex_episode \<Rightarrow>
               (False,
                (case plex_episodes_count iv season_num of
                   None \<Rightarrow> False
                 | Some counts \<Rightarrow>
                     (case counts episode_num of None \<Rightarrow> False | Some n \<Rightarrow> n > 1)),
                (if combined_locations plex_episode \<noteq> None
                    \<and> combined_locations plex_episode \<noteq> Some []
                 then join newline (case combined_locations plex_episode of
                                      Some cl \<Rightarrow> cl | None \<Rightarrow> [])
                 else if locations (stored plex_episode) \<noteq> []
                 then join newline (locations (stored plex_episode))
                 else []))))"

section \<open>Reconciliation (process_show, lines 292 to 357)\<close>

text \<open>What every row of one show repeats: columns 0 to 3.\<close>

record row_fixed =
  plex_library_title :: string
  show_title :: string
  show_year :: pyval
  num_seasons :: nat

text \<open>
  Lines 313 to 353: the thirteen write calls for one canonical episode, at \<open>row_index\<close>, in
  the order of the source. \<open>season_name\<close> and the episode title are passed to
  \<^verbatim>\<open>write_string\<close> as the catalog sent them; the air date has its own guard (lines 317 to
  319). The result is the main sheet as the calls leave it and the exception, if one was
  raised.
\<close>

definition emit_row ::
  "row_fixed \<Rightarrow> inventory \<Rightarrow> int option \<Rightarrow> pyval \<Rightarrow> nat \<Rightarrow> episode_data \<Rightarrow> sheet \<Rightarrow> nat
     \<Rightarrow> sheet \<times> string option" where
  "emit_row fx iv season_num season_name n_episodes episode main_sheet row_index =
     (let episode_num = ep_number episode;
          episode_title = (case ep_name episode of None \<Rightarrow> PStr [] | Some v \<Rightarrow> v);
          air_date = (case ep_aired episode of None \<Rightarrow> [] | Some d \<Rightarrow> d);
          (is_missing, is_duplicate, file_path) = classify iv season_num episode_num
      in write_cells row_index 0
           [CallWriteString (PStr (plex_library_title fx)),
            CallWriteString (PStr (show_title fx)),
            CallWrite (show_year fx),
            CallWrite (PInt (int (num_seasons fx))),
            CallWrite (py_int_opt season_num),
            CallWriteString season_name,
            CallWrite (PInt (int n_episodes)),
            CallWrite (py_int_opt episode_num),
            CallWrite (PStr air_date),
            CallWriteBoolean is_missing,
            CallWriteBoolean is_duplicate,
            CallWriteString episode_title,
            CallWriteString (PStr file_path)]
           main_sheet)"

text \<open>
  The loop of line 312; the state is the main sheet and \<open>row_index\<close>. An exception leaves
  the loop and the function: what is left is the main sheet, and the exception in place of
  a row index.
\<close>

fun emit_rows ::
  "row_fixed \<Rightarrow> inventory \<Rightarrow> int option \<Rightarrow> pyval \<Rightarrow> nat \<Rightarrow> episode_data list \<Rightarrow> sheet \<times> nat
     \<Rightarrow> sheet \<times> (string + nat)" where
  "emit_rows fx iv season_num season_name n_episodes [] (main_sheet, row_index) =
     (main_sheet, Inr row_index)"
| "emit_rows fx iv season_num season_name n_episodes (episode # episodes) (main_sheet, row_index) =
     (case emit_row fx iv season_num season_name n_episodes episode main_sheet row_index of
        (sh, Some e) \<Rightarrow> (sh, Inl e)
      | (sh, None) \<Rightarrow>
          emit_rows fx iv season_num season_name n_episodes episodes (sh, row_index + 1))"

text \<open>The loop of line 301; a season with no episodes is skipped (lines 306 to 308).\<close>

fun reconcile_seasons ::
  "row_fixed \<Rightarrow> inventory \<Rightarrow> season_data list \<Rightarrow> sheet \<times> nat \<Rightarrow> sheet \<times> (string + nat)" where
  "reconcile_seasons fx iv [] (main_sheet, row_index) = (main_sheet, Inr row_index)"
| "reconcile_seasons fx iv (season_data # tvdb_seasons) (main_sheet, row_index) =
     (let season_num = s_number season_data;
          season_name = (case s_name season_data of None \<Rightarrow> PStr [] | Some v \<Rightarrow> v);
          episodes = s_episodes season_data
      in if episodes = [] then reconcile_seasons fx iv tvdb_seasons (main_sheet, row_index)
         else
           (case emit_rows fx iv season_num season_name (length episodes) episodes
                   (main_sheet, row_index) of
              (sh, Inl e) \<Rightarrow> (sh, Inl e)
            | (sh, Inr r) \<Rightarrow> reconcile_seasons fx iv tvdb_seasons (sh, r)))"

section \<open>Notions of the specification, for the statements\<close>

text \<open>The inventory's record for a (season, episode) key, if the key is present.\<close>

definition lookup_episode :: "inventory \<Rightarrow> int option \<Rightarrow> int option \<Rightarrow> stored_episode option" where
  "lookup_episode iv s e = (case plex_episodes iv s of None \<Rightarrow> None | Some eps \<Rightarrow> eps e)"

text \<open>The occurrence count of a key; a key never counted has count 0.\<close>

definition occurrence_count :: "inventory \<Rightarrow> int option \<Rightarrow> int option \<Rightarrow> nat" where
  "occurrence_count iv s e =
     (case plex_episodes_count iv s of
        None \<Rightarrow> 0
      | Some counts \<Rightarrow> (case counts e of None \<Rightarrow> 0 | Some n \<Rightarrow> n))"

text \<open>The file-path list of a record: empty while the attribute is not set.\<close>

definition file_path_list :: "stored_episode \<Rightarrow> string list" where
  "file_path_list r = (case combined_locations r of None \<Rightarrow> [] | Some cl \<Rightarrow> cl)"

text \<open>
  What the builder keeps true of every record of the inventory: a record without the
  attribute belongs to an episode whose \<open>locations\<close> are empty, and the attribute, once set,
  is never an empty list.
\<close>

definition paths_tracked :: "inventory \<Rightarrow> bool" where
  "paths_tracked iv =
     (\<forall>s e r. lookup_episode iv s e = Some r \<longrightarrow>
        (combined_locations r = None \<longrightarrow> locations (stored r) = []) \<and>
        combined_locations r \<noteq> Some [])"

section \<open>The metadata resolver (get_tvdb_data, lines 126 to 202)\<close>

subsection \<open>The catalog client and the cache directory\<close>

text \<open>
  A call of a collaborator either returns (\<open>Inr\<close>) or raises (\<open>Inl msg\<close>, with
  \<open>msg\<close> what \<^verbatim>\<open>str(e)\<close> gives for the exception).
\<close>

record search_result =
  sr_year :: "pyval option"
  sr_tvdb_id :: pyval

record tvdb_client =
  search :: "string \<Rightarrow> string + search_result list"
  get_series_extended :: "pyval \<Rightarrow> string + series_data"
  get_season_extended :: "int option \<Rightarrow> string + season_data"

text \<open>
  A file of the cache directory: its last-write time, in microseconds, and what
  \<^verbatim>\<open>json.load\<close> reads from it (\<open>None\<close>: reading or parsing raises).
\<close>

record cache_file =
  mtime :: int
  content :: "tvdb_data option"

type_synonym cache_dir = "string \<rightharpoonup> cache_file"

text \<open>What the resolver does outside the process, in the order it does it.\<close>

datatype event =
  Search string
| GetSeriesExtended pyval
| GetSeasonExtended "int option"
| CacheRead string
| CacheWrite string

definition CACHE_EXPIRY_DAYS :: int where
  "CACHE_EXPIRY_DAYS = 14"

definition microseconds_per_day :: int where
  "microseconds_per_day = 86400000000"

definition get_cache_filename :: "pyval \<Rightarrow> string" where
  "get_cache_filename tvdb_id = ''./cache/tvdb_'' @ py_str tvdb_id @ ''.json''"

text \<open>Lines 63 to 71; \<open>now\<close> is the clock's reading.\<close>

definition is_cache_valid :: "int \<Rightarrow> cache_dir \<Rightarrow> string \<Rightarrow> bool" where
  "is_cache_valid now files path =
     (case files path of
        None \<Rightarrow> False
      | Some f \<Rightarrow>
          (let file_time = mtime f;
               expiry_date = now - CACHE_EXPIRY_DAYS * microseconds_per_day
           in file_time > expiry_date))"

subsection \<open>Resolving the identifier (lines 130 to 159)\<close>

text \<open>Line 142: the test of one search result against the year of the show.\<close>

definition year_matches :: "pyval \<Rightarrow> search_result \<Rightarrow> bool" where
  "year_matches yr result =
     (truthy yr \<and>
      py_str (case sr_year result of None \<Rightarrow> PStr [] | Some y \<Rightarrow> y) = py_str yr)"

text \<open>Lines 140 to 144: the loop with its \<^verbatim>\<open>break\<close>.\<close>

fun find_year_match :: "pyval \<Rightarrow> search_result list \<Rightarrow> search_result option" where
  "find_year_match yr [] = None"
| "find_year_match yr (result # results) =
     (if year_matches yr result then Some result else find_year_match yr results)"

text \<open>Lines 140 to 148. A search result is a non-empty dictionary, so it is true in a test.\<close>

definition best_match :: "pyval \<Rightarrow> search_result list \<Rightarrow> search_result option" where
  "best_match yr search_results =
     (case find_year_match yr search_results of
        Some result \<Rightarrow> Some result
      | None \<Rightarrow> (case search_results of [] \<Rightarrow> None | first # _ \<Rightarrow> Some first))"

definition resolve_tvdb_id ::
  "tvdb_client \<Rightarrow> string \<Rightarrow> pyval \<Rightarrow> pyval \<Rightarrow> (string + pyval) \<times> event list" where
  "resolve_tvdb_id cl ttl yr tvdb_id =
     (if truthy tvdb_id then (Inr tvdb_id, [])
      else
        (case search cl ttl of
           Inl e \<Rightarrow> (Inl (''TVDB search error: '' @ e), [Search ttl])
         | Inr search_results \<Rightarrow>
             if search_results = [] then (Inl ''Not found on TVDB'', [Search ttl])
             else
               (case best_match yr search_results of
                  Some result \<Rightarrow> (Inr (sr_tvdb_id result), [Search ttl])
                | None \<Rightarrow> (Inl ''No suitable match found'', [Search ttl]))))"

subsection \<open>Which seasons are fetched (line 182)\<close>

fun json_truthy :: "json \<Rightarrow> bool" where
  "json_truthy JNull = False"
| "json_truthy (JBool b) = b"
| "json_truthy (JNum n) = (n \<noteq> 0)"
| "json_truthy (JStr s) = (s \<noteq> [])"
| "json_truthy (JArr xs) = (xs \<noteq> [])"
| "json_truthy (JObj kvs) = (kvs \<noteq> [])"

definition key_error_type :: string where
  "key_error_type = CHR 0x27 # ''type'' @ [CHR 0x27]"

text \<open>
  \<^verbatim>\<open>t["type"]\<close>: only a dictionary can be read at a string key. The messages are those
  of CPython 3.10.
\<close>

fun subscript_type :: "json \<Rightarrow> string + json" where
  "subscript_type (JObj kvs) =
     (case map_of kvs ''type'' of None \<Rightarrow> Inl key_error_type | Some v \<Rightarrow> Inr v)"
| "subscript_type (JStr s) = Inl ''string indices must be integers''"
| "subscript_type (JArr xs) = Inl ''list indices must be integers or slices, not str''"
| "subscript_type (JNum n) = Inl (CHR 0x27 # ''int'' @ CHR 0x27 # '' object is not subscriptable'')"
| "subscript_type (JBool b) = Inl (CHR 0x27 # ''bool'' @ CHR 0x27 # '' object is not subscriptable'')"
| "subscript_type JNull = Inl (CHR 0x27 # ''NoneType'' @ CHR 0x27 # '' object is not subscriptable'')"

text \<open>
  The condition of line 182,
  \<^verbatim>\<open>season["type"] and season["type"]["type"] and season["type"]["type"] != "official"\<close>:
  \<open>Inr True\<close> when the season is skipped, \<open>Inr False\<close> when its episodes are fetched,
  \<open>Inl\<close> when evaluating it raises.
\<close>

definition skips_details :: "series_season \<Rightarrow> string + bool" where
  "skips_details season =
     (case season_type season of
        None \<Rightarrow> Inl key_error_type
      | Some t \<Rightarrow>
          if \<not> json_truthy t then Inr False
          else (case subscript_type t of
                  Inl e \<Rightarrow> Inl e
                | Inr u \<Rightarrow> if \<not> json_truthy u then Inr False else Inr (u \<noteq> JStr ''official'')))"

text \<open>
  Lines 181 to 192. A season whose fetch raises is left out (lines 191 and 192); an
  exception of the condition of line 182 leaves the loop.
\<close>

fun fetch_seasons ::
  "tvdb_client \<Rightarrow> series_season list \<Rightarrow> (string + season_data list) \<times> event list" where
  "fetch_seasons cl [] = (Inr [], [])"
| "fetch_seasons cl (season # rest) =
     (case skips_details season of
        Inl e \<Rightarrow> (Inl e, [])
      | Inr True \<Rightarrow> fetch_seasons cl rest
      | Inr False \<Rightarrow>
          (case fetch_seasons cl rest of
             (later, evs) \<Rightarrow>
               (case get_season_extended cl (season_id season) of
                  Inl e \<Rightarrow> (later, GetSeasonExtended (season_id season) # evs)
                | Inr season_extended \<Rightarrow>
                    (case later of
                       Inl e \<Rightarrow> (Inl e, GetSeasonExtended (season_id season) # evs)
                     | Inr fetched \<Rightarrow>
                         (Inr (season_extended # fetched),
                          GetSeasonExtended (season_id season) # evs)))))"

subsection \<open>Cache or catalog (lines 161 to 202)\<close>

text \<open>
  \<open>write_error path\<close> is the exception that opening \<open>path\<close> for writing raises, if it
  does. The result is what the function returns (\<open>Inl error\<close> for
  \<^verbatim>\<open>return None, error\<close>, \<open>Inr show_data\<close> for \<^verbatim>\<open>return show_data, None\<close>), the cache
  directory afterwards, and the events.
\<close>

definition load_show_data ::
  "tvdb_client \<Rightarrow> int \<Rightarrow> (string \<Rightarrow> string option) \<Rightarrow> cache_dir \<Rightarrow> pyval
     \<Rightarrow> (string + tvdb_data) \<times> cache_dir \<times> event list" where
  "load_show_data cl now write_error files tvdb_id =
     (let path = get_cache_filename tvdb_id;
          cached = (if is_cache_valid now files path
                    then (case files path of None \<Rightarrow> None | Some f \<Rightarrow> content f)
                    else None);
          evs0 = (if is_cache_valid now files path then [CacheRead path] else [])
      in case cached of
           Some show_data \<Rightarrow> (Inr show_data, files, evs0)
         | None \<Rightarrow>
             (case get_series_extended cl tvdb_id of
                Inl e \<Rightarrow> (Inl (''TVDB API error: '' @ e), files, evs0 @ [GetSeriesExtended tvdb_id])
              | Inr series_data \<Rightarrow>
                  (case fetch_seasons cl (series_seasons series_data) of
                     (Inl e, evs) \<Rightarrow>
                       (Inl (''TVDB API error: '' @ e), files,
                        evs0 @ GetSeriesExtended tvdb_id # evs)
                   | (Inr fetched, evs) \<Rightarrow>
                       (let show_data = \<lparr>series = series_data, seasons = fetched\<rparr>
                        in case write_error path of
                             Some e \<Rightarrow>
                               (Inl (''TVDB API error: '' @ e), files,
                                evs0 @ GetSeriesExtended tvdb_id # evs @ [CacheWrite path])
                           | None \<Rightarrow>
                               (Inr show_data,
                                files(path \<mapsto> \<lparr>mtime = now, content = Some show_data\<rparr>),
                                evs0 @ GetSeriesExtended tvdb_id # evs @ [CacheWrite path])))))"

definition get_tvdb_data ::
  "tvdb_client \<Rightarrow> int \<Rightarrow> (string \<Rightarrow> string option) \<Rightarrow> cache_dir \<Rightarrow> string \<Rightarrow> pyval \<Rightarrow> pyval
     \<Rightarrow> (string + tvdb_data) \<times> cache_dir \<times> event list" where
  "get_tvdb_data cl now write_error files ttl yr tvdb_id =
     (case resolve_tvdb_id cl ttl yr tvdb_id of
        (Inl error, evs) \<Rightarrow> (Inl error, files, evs)
      | (Inr resolved, evs) \<Rightarrow>
          (case load_show_data cl now write_error files resolved of
             (result, files', evs') \<Rightarrow> (result, files', evs @ evs')))"

section \<open>One show (process_show, lines 205 to 357)\<close>

text \<open>
  Lines 74 to 79, on the \<^verbatim>\<open>id\<close> strings of the guid list. A guid that contains
  \<^verbatim>\<open>tvdb://\<close> splits into at least two pieces, so the index 1 is in range.
\<close>

fun extract_tvdb_id :: "string list \<Rightarrow> pyval" where
  "extract_tvdb_id [] = PNone"
| "extract_tvdb_id (guid # rest) =
     (if contains ''tvdb://'' guid then
        (case split_slashes [] guid of _ # piece # _ \<Rightarrow> PStr piece | _ \<Rightarrow> PNone)
      else extract_tvdb_id rest)"

text \<open>
  A show object of the library server: \<open>year\<close> is \<^verbatim>\<open>getattr(show, "year", "")\<close>,
  \<open>guids\<close> the \<^verbatim>\<open>id\<close> strings of \<^verbatim>\<open>show.guids\<close> (empty when there are none), and
  \<open>fetch_episodes\<close> the outcome of \<^verbatim>\<open>show.episodes()\<close>.
\<close>

record plex_show =
  title :: string
  year :: pyval
  guids :: "string list"
  fetch_episodes :: "string + plex_episode list"

text \<open>What is outside one call and does not change during the run.\<close>

record env =
  env_client :: tvdb_client
  env_clock :: int
  env_write_error :: "string \<Rightarrow> string option"
  env_absolute :: "string \<Rightarrow> string"

text \<open>The three worksheets, the cache directory and the events so far.\<close>

record world =
  main_sheet :: sheet
  not_found_sheet :: sheet
  error_sheet :: sheet
  cache :: cache_dir
  calls :: "event list"

text \<open>Line 297: the seasons counted for the column "Number of Seasons".\<close>

definition official_seasons :: "series_data \<Rightarrow> series_season list" where
  "official_seasons sd =
     filter (\<lambda>s. season_type s = None \<or> season_type s = Some JNull
                 \<or> season_type s = Some (JStr ''official''))
       (series_seasons sd)"

text \<open>Lines 231 to 239: the error row, always at row 1.\<close>

definition write_error_row :: "sheet \<Rightarrow> string \<Rightarrow> string \<Rightarrow> pyval \<Rightarrow> string \<Rightarrow> sheet" where
  "write_error_row sh lib ttl yr error =
     (let error_row = 1
      in sh @ [(error_row, 0, WriteString lib),
               (error_row, 1, WriteString ttl),
               (error_row, 2, Write yr),
               (error_row, 3, WriteString error)])"

text \<open>
  The whole function: the world as the call leaves it, and either the returned row index
  or the exception that ended the call (\<open>Inl\<close>). Every error message the resolver returns
  is a non-empty string, so \<^verbatim>\<open>if error:\<close> is the test for \<open>Inl\<close>. The library title, the
  show title and the error message are strings, so the writes of the error row do not
  raise; the writes of lines 341 to 353 can.
\<close>

definition process_show ::
  "env \<Rightarrow> plex_show \<Rightarrow> string \<Rightarrow> world \<Rightarrow> nat \<Rightarrow> world \<times> (string + nat)" where
  "process_show ev shw lib w row_index =
     (let tvdb_id = extract_tvdb_id (guids shw)
      in case get_tvdb_data (env_client ev) (env_clock ev) (env_write_error ev) (cache w)
                (title shw) (year shw) tvdb_id of
           (result, files', evs) \<Rightarrow>
             (let w1 = w\<lparr>cache := files', calls := calls w @ evs\<rparr>
              in case result of
                   Inl error \<Rightarrow>
                     (if contains ''Not found'' error
                      then w1\<lparr>not_found_sheet :=
                                write_error_row (not_found_sheet w1) lib (title shw) (year shw) error\<rparr>
                      else w1\<lparr>error_sheet :=
                                write_error_row (error_sheet w1) lib (title shw) (year shw) error\<rparr>,
                      Inr row_index)
                 | Inr data \<Rightarrow>
                     (let iv = build_inventory (env_absolute ev) (fetch_episodes shw);
                          fx = \<lparr>plex_library_title = lib, show_title = title shw,
                                show_year = year shw,
                                num_seasons = length (official_seasons (series data))\<rparr>
                      in case reconcile_seasons fx iv (seasons data) (main_sheet w1, row_index) of
                           (sh, outcome) \<Rightarrow> (w1\<lparr>main_sheet := sh\<rparr>, outcome))))"

section \<open>The run (main, lines 360 to 426)\<close>

definition headers :: "string list" where
  "headers =
     [''Plex Library Title'', ''TV Show Title'', ''TV Show Year'', ''Number of Seasons'',
      ''Season Number'', ''Season Title'', ''Number of Episodes'', ''Episode Number'',
      ''Episode Aired Date'', ''Is Plex Missing'', ''Is Plex Duplicate'', ''Episode Title'',
      ''File on Disk'']"

definition error_headers :: "string list" where
  "error_headers =
     [''Plex Library Title'', ''TV Show Title'', ''TV Show Year'', ''Error Details'']"

text \<open>Lines 82 to 123: the header rows (filters and frozen panes are left out).\<close>

definition header_row :: "string list \<Rightarrow> sheet" where
  "header_row hs = map (\<lambda>(col, header). (0, col, WriteHeader header)) (enumerate 0 hs)"

definition setup_worksheets :: "cache_dir \<Rightarrow> world" where
  "setup_worksheets files =
     \<lparr>main_sheet = header_row headers,
      not_found_sheet = header_row error_headers,
      error_sheet = header_row error_headers,
      cache = files,
      calls = []\<rparr>"

text \<open>A library section: \<open>lib_search\<close> is the outcome of \<^verbatim>\<open>library.search()\<close>.\<close>

record plex_library =
  lib_title :: string
  lib_type :: string
  lib_search :: "string + plex_show list"

text \<open>
  What the run does, in order: a read of the flag \<^verbatim>\<open>terminate\<close> with the value read, a
  call of \<open>process_show\<close> with the library and the show, and the closing of the
  workbook.
\<close>

datatype step = Poll bool | Started string plex_show | Saved

text \<open>
  The state of the loops of main. \<open>reads\<close> counts the reads of the flag: the flag is set
  from outside, by the signal handler (lines 40 to 44), so the value of the n-th read is
  given by a function \<open>terminate\<close> of n.
\<close>

record run =
  rw :: world
  row_index_of :: nat
  reads :: nat
  trace :: "step list"

text \<open>
  Lines 404 to 413. When \<open>process_show\<close> returns, its result is the new row index; when
  it raises, the \<^verbatim>\<open>except\<close> clause of line 411 prints the exception, the assignment
  of line 410 has not happened, so \<open>row_index\<close> keeps its value, and the loop goes on with
  the next show. What the call wrote before it raised stays written.
\<close>

fun process_shows :: "env \<Rightarrow> (nat \<Rightarrow> bool) \<Rightarrow> string \<Rightarrow> plex_show list \<Rightarrow> run \<Rightarrow> run" where
  "process_shows ev terminate library_title [] st = st"
| "process_shows ev terminate library_title (shw # shows) st =
     (if terminate (reads st)
      then st\<lparr>reads := reads st + 1, trace := trace st @ [Poll True]\<rparr>
      else
        (case process_show ev shw library_title (rw st) (row_index_of st) of
           (w', Inr row_index) \<Rightarrow>
             process_shows ev terminate library_title shows
               (st\<lparr>rw := w', row_index_of := row_index, reads := reads st + 1,
                   trace := trace st @ [Poll False, Started library_title shw]\<rparr>)
         | (w', Inl e1) \<Rightarrow>
             process_shows ev terminate library_title shows
               (st\<lparr>rw := w', reads := reads st + 1,
                   trace := trace st @ [Poll False, Started library_title shw]\<rparr>)))"

text \<open>
  Lines 393 to 416. The second component is the exception of \<^verbatim>\<open>library.search()\<close>
  that ended the loop, if one did.
\<close>

fun process_libraries ::
  "env \<Rightarrow> (nat \<Rightarrow> bool) \<Rightarrow> plex_library list \<Rightarrow> run \<Rightarrow> run \<times> string option" where
  "process_libraries ev terminate [] st = (st, None)"
| "process_libraries ev terminate (library # libraries) st =
     (case lib_search library of
        Inl e \<Rightarrow> (st, Some e)
      | Inr shows \<Rightarrow>
          (let st1 = process_shows ev terminate (lib_title library) shows st
           in if terminate (reads st1)
              then (st1\<lparr>reads := reads st1 + 1, trace := trace st1 @ [Poll True]\<rparr>, None)
              else process_libraries ev terminate libraries
                     (st1\<lparr>reads := reads st1 + 1, trace := trace st1 @ [Poll False]\<rparr>)))"

text \<open>
  The whole of main. \<open>sections\<close> is the outcome of connecting to both collaborators
  and listing the library sections (lines 368 to 380); \<open>files\<close> is the cache directory
  at the start. The result is the final state and the workbook as saved by
  \<^verbatim>\<open>wb.close()\<close>: the three sheets as they stand at that moment.
\<close>

definition main ::
  "env \<Rightarrow> (nat \<Rightarrow> bool) \<Rightarrow> string + plex_library list \<Rightarrow> cache_dir
     \<Rightarrow> run \<times> (sheet \<times> sheet \<times> sheet)" where
  "main ev terminate sections files =
     (let st0 = \<lparr>rw = setup_worksheets files, row_index_of = 1, reads = 0, trace = []\<rparr>;
          st1 = (case sections of
                   Inl e \<Rightarrow> st0
                 | Inr secs \<Rightarrow>
                     (let libraries = filter (\<lambda>section. lib_type section = ''show'') secs
                      in if libraries = [] then st0
                         else fst (process_libraries ev terminate libraries st0)));
          st2 = st1\<lparr>trace := trace st1 @ [Saved]\<rparr>
      in (st2, (main_sheet (rw st2), not_found_sheet (rw st2), error_sheet (rw st2))))"

section \<open>Notions of the specification about rows\<close>

text \<open>
  The canonical episodes of the fetched seasons, each with its season, in the order the
  catalog gives them.
\<close>

definition canonical_episodes :: "season_data list \<Rightarrow> (season_data \<times> episode_data) list" where
  "canonical_episodes tvdb_seasons =
     concat (map (\<lambda>s. map (\<lambda>e. (s, e)) (s_episodes s)) tvdb_seasons)"

text \<open>The writes of one column, oldest first, each with its row.\<close>

definition column :: "nat \<Rightarrow> sheet \<Rightarrow> (nat \<times> cell) list" where
  "column col sh = map (\<lambda>(r, c, v). (r, v)) (filter (\<lambda>(r, c, v). c = col) sh)"

text \<open>The rows a sequence of writes touches, each once.\<close>

definition rows_of :: "sheet \<Rightarrow> nat list" where
  "rows_of sh = remdups (map fst sh)"

text \<open>The positions written, oldest first.\<close>

definition positions :: "sheet \<Rightarrow> (nat \<times> nat) list" where
  "positions sh = map (\<lambda>(r, c, v). (r, c)) sh"

text \<open>
  The season title and the episode title as they are passed to \<^verbatim>\<open>write_string\<close> (lines
  303 and 314, with their default for a missing key).
\<close>

definition season_name_of :: "season_data \<Rightarrow> pyval" where
  "season_name_of s = (case s_name s of None \<Rightarrow> PStr [] | Some v \<Rightarrow> v)"

definition episode_title_of :: "episode_data \<Rightarrow> pyval" where
  "episode_title_of e = (case ep_name e of None \<Rightarrow> PStr [] | Some v \<Rightarrow> v)"

fun is_str :: "pyval \<Rightarrow> bool" where
  "is_str (PStr s) = True"
| "is_str v = False"

text \<open>
  A canonical episode whose row can be written: the two names that go to
  \<^verbatim>\<open>write_string\<close> are strings.
\<close>

definition writable :: "season_data \<times> episode_data \<Rightarrow> bool" where
  "writable se = (is_str (season_name_of (fst se)) \<and> is_str (episode_title_of (snd se)))"

text \<open>
  The canonical episodes whose row is written completely, those before the first one that
  is not writable; and the canonical episodes whose row is begun, which are those and the
  first one that is not writable.
\<close>

definition completed ::
  "(season_data \<times> episode_data) list \<Rightarrow> (season_data \<times> episode_data) list" where
  "completed canon = takeWhile writable canon"

definition reached ::
  "(season_data \<times> episode_data) list \<Rightarrow> (season_data \<times> episode_data) list" where
  "reached canon = takeWhile writable canon @ take 1 (dropWhile writable canon)"

text \<open>
  The exception raised in the row of a canonical episode that is not writable: that of the
  season title (column 5) or else that of the episode title (column 11).
\<close>

definition name_error :: "season_data \<times> episode_data \<Rightarrow> string" where
  "name_error se =
     (if is_str (season_name_of (fst se)) then len_error (episode_title_of (snd se))
      else len_error (season_name_of (fst se)))"

text \<open>The exception of the first canonical episode that is not writable, if there is one.\<close>

definition raised :: "(season_data \<times> episode_data) list \<Rightarrow> string option" where
  "raised canon =
     (case dropWhile writable canon of [] \<Rightarrow> None | se # rest \<Rightarrow> Some (name_error se))"

text \<open>
  The number of cells written in the row of a canonical episode: all thirteen, or those
  before the first name that is not a string.
\<close>

definition cells_written :: "season_data \<times> episode_data \<Rightarrow> nat" where
  "cells_written se =
     (if \<not> is_str (season_name_of (fst se)) then 5
      else if \<not> is_str (episode_title_of (snd se)) then 11
      else 13)"

text \<open>The cells written for one canonical episode at a row of an empty sheet.\<close>

definition row_at ::
  "row_fixed \<Rightarrow> inventory \<Rightarrow> nat \<Rightarrow> season_data \<Rightarrow> episode_data \<Rightarrow> sheet" where
  "row_at fx iv row s e =
     fst (emit_row fx iv (s_number s) (season_name_of s) (length (s_episodes s)) e [] row)"

text \<open>
  The cells of a list of canonical episodes, one row after the other from row \<open>r\<close> on; and
  the writes of one show: the cells of each canonical episode whose row is begun.
\<close>

definition rows_from ::
  "row_fixed \<Rightarrow> inventory \<Rightarrow> nat \<Rightarrow> (season_data \<times> episode_data) list \<Rightarrow> sheet" where
  "rows_from fx iv r canon =
     concat (map (\<lambda>(row, s, e). row_at fx iv row s e) (enumerate r canon))"

definition show_rows :: "row_fixed \<Rightarrow> inventory \<Rightarrow> season_data list \<Rightarrow> nat \<Rightarrow> sheet" where
  "show_rows fx iv tvdb_seasons r = rows_from fx iv r (reached (canonical_episodes tvdb_seasons))"

text \<open>The loops of lines 301 and 312 as one loop over the canonical episodes.\<close>

fun write_rows ::
  "row_fixed \<Rightarrow> inventory \<Rightarrow> (season_data \<times> episode_data) list \<Rightarrow> sheet \<times> nat
     \<Rightarrow> sheet \<times> (string + nat)" where
  "write_rows fx iv [] (sh, r) = (sh, Inr r)"
| "write_rows fx iv (se # rest) (sh, r) =
     (case emit_row fx iv (s_number (fst se)) (season_name_of (fst se))
             (length (s_episodes (fst se))) (snd se) sh r of
        (sh', Some x) \<Rightarrow> (sh', Inl x)
      | (sh', None) \<Rightarrow> write_rows fx iv rest (sh', r + 1))"

text \<open>
  An official season, as the fetch of line 182 decides it: a season of the series record
  whose episodes are fetched.
\<close>

definition fetched_season :: "series_season \<Rightarrow> bool" where
  "fetched_season s = (skips_details s = Inr False)"

text \<open>The canonical episodes the catalog has for a season of the series record.\<close>

definition episodes_of :: "tvdb_client \<Rightarrow> series_season \<Rightarrow> episode_data list" where
  "episodes_of cl s =
     (case get_season_extended cl (season_id s) of Inl e \<Rightarrow> [] | Inr sd \<Rightarrow> s_episodes sd)"

text \<open>
  A complete season fetch: the aggregate holds the extended record of every official
  season of its series record, in the order of the series record.
\<close>

definition complete_fetch :: "tvdb_client \<Rightarrow> tvdb_data \<Rightarrow> bool" where
  "complete_fetch cl data =
     (map (\<lambda>s. get_season_extended cl (season_id s))
          (filter fetched_season (series_seasons (series data))) =
      map Inr (seasons data))"

text \<open>The canonical episodes of all official seasons of a series, in catalog order.\<close>

definition catalog_episodes :: "tvdb_client \<Rightarrow> series_data \<Rightarrow> episode_data list" where
  "catalog_episodes cl sd =
     concat (map (episodes_of cl) (filter fetched_season (series_seasons sd)))"

text \<open>What a call appended to a sheet.\<close>

definition appended :: "sheet \<Rightarrow> sheet \<Rightarrow> sheet" where
  "appended before after = drop (length before) after"

section \<open>Example data\<close>

text \<open>
  A show of the library server with two episodes of season 1: episode 1 with one file,
  episode 3 with two copies.
\<close>

definition ex_episodes :: "plex_episode list" where
  "ex_episodes =
     [\<lparr>seasonNumber = Some 1, index = Some 1, iterParts = [Inr ''/media/s01e01.mkv''],
       locations = [''/media/s01e01.mkv'']\<rparr>,
      \<lparr>seasonNumber = Some 1, index = Some 3, iterParts = [Inr ''/a.mkv'', Inr ''/b.mkv''],
       locations = [''/a.mkv'', ''/b.mkv'']\<rparr>]"

definition ex_fixed :: row_fixed where
  "ex_fixed = \<lparr>plex_library_title = ''TV'', show_title = ''Show'', show_year = PInt 2008,
                num_seasons = 1\<rparr>"

definition ex_episode :: "int \<Rightarrow> string \<Rightarrow> episode_data" where
  "ex_episode n t = \<lparr>ep_number = Some n, ep_name = Some (PStr t), ep_aired = None\<rparr>"

text \<open>
  A catalog with one series: one season, typed as the catalog types its seasons (an
  object whose own \<^verbatim>\<open>type\<close> is "official"), with two episodes. A search finds nothing.
\<close>

definition ex_season_type :: json where
  "ex_season_type =
     JObj [(''id'', JNum 1), (''name'', JStr ''Aired Order''), (''type'', JStr ''official'')]"

definition ex_series :: series_data where
  "ex_series =
     \<lparr>series_seasons =
        [\<lparr>season_id = Some 10, season_number = Some 1, season_type = Some ex_season_type\<rparr>]\<rparr>"

definition ex_season :: season_data where
  "ex_season =
     \<lparr>s_number = Some 1, s_name = Some (PStr ''Season 1''),
      s_episodes = [ex_episode 1 ''Pilot'', ex_episode 2 ''Second'']\<rparr>"

definition ex_client :: tvdb_client where
  "ex_client =
     \<lparr>search = (\<lambda>t. Inr []),
      get_series_extended = (\<lambda>i. Inr ex_series),
      get_season_extended = (\<lambda>i. Inr ex_season)\<rparr>"

definition ex_absolute :: "string \<Rightarrow> string" where
  [simp]: "ex_absolute p = p"

text \<open>A cache directory that can be written, and one that cannot.\<close>

definition ex_writable :: "string \<Rightarrow> string option" where
  [simp]: "ex_writable path = None"

definition ex_unwritable :: "string \<Rightarrow> string option" where
  [simp]: "ex_unwritable path = Some ''Permission denied''"

definition ex_env :: env where
  "ex_env =
     \<lparr>env_client = ex_client, env_clock = 0, env_write_error = ex_writable,
      env_absolute = ex_absolute\<rparr>"

text \<open>The same, with a cache directory that cannot be written.\<close>

definition ex_env_readonly :: env where
  "ex_env_readonly = ex_env\<lparr>env_write_error := ex_unwritable\<rparr>"

definition ex_show :: plex_show where
  "ex_show =
     \<lparr>title = ''Show'', year = PInt 2008, guids = [''tvdb://42''],
      fetch_episodes = Inr [hd ex_episodes]\<rparr>"

text \<open>What a first, uncached look-up of the example show returns and leaves behind.\<close>

definition ex_data :: tvdb_data where
  "ex_data = \<lparr>series = ex_series, seasons = [ex_season]\<rparr>"

definition ex_cache :: cache_dir where
  "ex_cache = [''./cache/tvdb_42.json'' \<mapsto> \<lparr>mtime = 0, content = Some ex_data\<rparr>]"

definition ex_calls :: "event list" where
  "ex_calls = [GetSeriesExtended (PStr ''42''), GetSeasonExtended (Some 10),
               CacheWrite ''./cache/tvdb_42.json'']"

section \<open>Notions of the specification about the cache\<close>

text \<open>
  A cache entry that can be used: the file exists, its last-write time is within the
  expiry window, and it can be read and parsed.
\<close>

definition cache_usable :: "int \<Rightarrow> cache_dir \<Rightarrow> string \<Rightarrow> bool" where
  "cache_usable now files path =
     (case files path of
        None \<Rightarrow> False
      | Some f \<Rightarrow> now - CACHE_EXPIRY_DAYS * microseconds_per_day < mtime f \<and> content f \<noteq> None)"

text \<open>The blob of a cache file, if the file is there and readable.\<close>

definition cached_blob :: "cache_dir \<Rightarrow> string \<Rightarrow> tvdb_data option" where
  "cached_blob files path = (case files path of None \<Rightarrow> None | Some f \<Rightarrow> content f)"

text \<open>A cache directory whose file for the example show is fresh but cannot be parsed.\<close>

definition ex_unreadable_cache :: cache_dir where
  "ex_unreadable_cache = [''./cache/tvdb_42.json'' \<mapsto> \<lparr>mtime = 0, content = None\<rparr>]"

definition fifteen_days :: int where
  "fifteen_days = 15 * microseconds_per_day"

section \<open>Notions of the specification about the search\<close>

text \<open>The year a search result reports, with the default of line 142.\<close>

definition reported_year :: "search_result \<Rightarrow> pyval" where
  "reported_year result = (case sr_year result of None \<Rightarrow> PStr [] | Some y \<Rightarrow> y)"

text \<open>
  The reported year equals the given year: the catalog reports years as strings, so the
  two are compared as printed. No year is given when the show's year is \<^verbatim>\<open>None\<close>, empty
  or 0.
\<close>

definition same_year :: "pyval \<Rightarrow> search_result \<Rightarrow> bool" where
  "same_year yr result = (truthy yr \<and> py_str (reported_year result) = py_str yr)"

text \<open>Three search results, the second and third of the year 2008.\<close>

definition ex_results :: "search_result list" where
  "ex_results =
     [\<lparr>sr_year = Some (PStr ''1999''), sr_tvdb_id = PStr ''7''\<rparr>,
      \<lparr>sr_year = Some (PStr ''2008''), sr_tvdb_id = PStr ''42''\<rparr>,
      \<lparr>sr_year = Some (PStr ''2008''), sr_tvdb_id = PStr ''43''\<rparr>]"

definition ex_search_client :: tvdb_client where
  "ex_search_client = ex_client\<lparr>search := (\<lambda>t. Inr ex_results)\<rparr>"

section \<open>Notions of the specification about error rows\<close>



text \<open>The example show without a catalog identifier, and a catalog whose search raises.\<close>

definition ex_show_no_guid :: plex_show where
  "ex_show_no_guid = ex_show\<lparr>guids := []\<rparr>"


section \<open>Notions of the specification about fetch failures\<close>

text \<open>The files of an episode that are fetched before the first failure.\<close>

fun files_before_failure :: "(string + string) list \<Rightarrow> string list" where
  "files_before_failure [] = []"
| "files_before_failure (Inl e # ps) = []"
| "files_before_failure (Inr f # ps) = f # files_before_failure ps"

text \<open>An episode with a file-fetch failure.\<close>

definition fails :: "plex_episode \<Rightarrow> bool" where
  "fails episode = list_ex isl (iterParts episode)"

text \<open>Every season has both of its dictionaries or none.\<close>

definition seasons_paired :: "inventory \<Rightarrow> bool" where
  "seasons_paired iv = (\<forall>s. (plex_episodes iv s = None) = (plex_episodes_count iv s = None))"

text \<open>Two episodes of season 1; fetching the file of the first one fails.\<close>

definition ex_failing_episodes :: "plex_episode list" where
  "ex_failing_episodes =
     [\<lparr>seasonNumber = Some 1, index = Some 1, iterParts = [Inl ''timed out''], locations = []\<rparr>,
      \<lparr>seasonNumber = Some 1, index = Some 2, iterParts = [Inr ''/media/s01e02.mkv''],
       locations = [''/media/s01e02.mkv'']\<rparr>]"

definition ex_show_failing :: plex_show where
  "ex_show_failing = ex_show\<lparr>fetch_episodes := Inr ex_failing_episodes\<rparr>"

section \<open>Notions of the specification about the run\<close>

text \<open>The flag is only ever set (line 44): once a read finds it set, every later one does.\<close>

definition stays_set :: "(nat \<Rightarrow> bool) \<Rightarrow> bool" where
  "stays_set terminate = (\<forall>m n. terminate m \<longrightarrow> m \<le> n \<longrightarrow> terminate n)"

fun is_started :: "step \<Rightarrow> bool" where
  "is_started (Started lib shw) = True"
| "is_started s = False"

text \<open>The shows whose processing was started, in order, each with its library.\<close>

fun started :: "step list \<Rightarrow> (string \<times> plex_show) list" where
  "started [] = []"
| "started (Started lib shw # tr) = (lib, shw) # started tr"
| "started (s # tr) = started tr"

text \<open>
  One show carried to its own end: to its return, which gives the new row index, or to
  its exception, which leaves the row index as it was.
\<close>

definition carried_out :: "env \<Rightarrow> string \<Rightarrow> plex_show \<Rightarrow> world \<times> nat \<Rightarrow> world \<times> nat" where
  "carried_out ev lib shw st =
     (case process_show ev shw lib (fst st) (snd st) of
        (w', Inr r') \<Rightarrow> (w', r')
      | (w', Inl e) \<Rightarrow> (w', snd st))"

text \<open>Shows carried to their end, one after the other.\<close>

fun process_all :: "env \<Rightarrow> (string \<times> plex_show) list \<Rightarrow> world \<times> nat \<Rightarrow> world \<times> nat" where
  "process_all ev [] st = st"
| "process_all ev ((lib, shw) # rest) st = process_all ev rest (carried_out ev lib shw st)"

text \<open>After a read that found the flag set, no show is started.\<close>

fun no_start_after_set :: "step list \<Rightarrow> bool" where
  "no_start_after_set [] = True"
| "no_start_after_set (Poll True # tr) = list_all (\<lambda>s. \<not> is_started s) tr"
| "no_start_after_set (s # tr) = no_start_after_set tr"

text \<open>
  Read backwards, every start of a show comes right after a read of the flag that found it
  unset.
\<close>

fun starts_follow_reads :: "step list \<Rightarrow> bool" where
  "starts_follow_reads [] = True"
| "starts_follow_reads (Started lib shw # Poll False # earlier) = starts_follow_reads earlier"
| "starts_follow_reads (Started lib shw # earlier) = False"
| "starts_follow_reads (s # earlier) = starts_follow_reads earlier"

text \<open>The states that follow a state of the loops of main.\<close>

definition after_break :: "run \<Rightarrow> run" where
  "after_break st = st\<lparr>reads := reads st + 1, trace := trace st @ [Poll True]\<rparr>"

definition after_library :: "run \<Rightarrow> run" where
  "after_library st = st\<lparr>reads := reads st + 1, trace := trace st @ [Poll False]\<rparr>"

definition after_show :: "env \<Rightarrow> string \<Rightarrow> plex_show \<Rightarrow> run \<Rightarrow> run" where
  "after_show ev lib shw st =
     (case carried_out ev lib shw (rw st, row_index_of st) of
        (w', r') \<Rightarrow>
          st\<lparr>rw := w', row_index_of := r', reads := reads st + 1,
             trace := trace st @ [Poll False, Started lib shw]\<rparr>)"

text \<open>No position written twice, rows never going back, all rows below the row index.\<close>

definition tidy :: "sheet \<Rightarrow> nat \<Rightarrow> bool" where
  "tidy sh r = (distinct (positions sh) \<and> sorted (map fst sh) \<and> list_all (\<lambda>row. row < r) (map fst sh))"

text \<open>The flag is set while the first show is processed: the first read finds it unset.\<close>

definition ex_interrupt :: "nat \<Rightarrow> bool" where
  "ex_interrupt n = (1 \<le> n)"

text \<open>Two libraries with three shows in all.\<close>

definition ex_sections :: "plex_library list" where
  "ex_sections =
     [\<lparr>lib_title = ''TV'', lib_type = ''show'', lib_search = Inr [ex_show, ex_show_no_guid]\<rparr>,
      \<lparr>lib_title = ''Kids'', lib_type = ''show'', lib_search = Inr [ex_show]\<rparr>]"

section \<open>The inventory builder keeps the file paths tracked\<close>

lemma lookup_ensure_season:
  "lookup_episode (ensure_season s0 iv) s e = lookup_episode iv s e"
  by (simp add: lookup_episode_def ensure_season_def split: option.splits)

lemma paths_tracked_empty: "paths_tracked empty_inventory"
  by (simp add: paths_tracked_def lookup_episode_def empty_inventory_def)

lemma paths_tracked_ensure_season:
  "paths_tracked iv \<Longrightarrow> paths_tracked (ensure_season s iv)"
  by (simp add: paths_tracked_def lookup_ensure_season)

lemma lookup_add_part:
  assumes "add_part absolute episode f iv = Inr iv'"
  shows "lookup_episode iv' s e =
    (if s = seasonNumber episode \<and> e = index episode then
       Some (case lookup_episode iv s e of
               Some existing_ep \<Rightarrow>
                 if locations episode \<noteq> [] then
                   existing_ep\<lparr>combined_locations :=
                     Some (file_path_list existing_ep @ [absolute (strip_long_prefix f)])\<rparr>
                 else existing_ep
             | None \<Rightarrow>
                 \<lparr>stored = episode,
                  combined_locations =
                    (if locations episode \<noteq> [] then Some [absolute (strip_long_prefix f)]
                     else None)\<rparr>)
     else lookup_episode iv s e)"
proof -
  from assms obtain counts eps where
    c: "plex_episodes_count iv (seasonNumber episode) = Some counts" and
    p: "plex_episodes iv (seasonNumber episode) = Some eps"
    by (auto simp: add_part_def Let_def split: option.splits)
  show ?thesis
  proof (cases "eps (index episode)")
    case None
    with assms c p show ?thesis
      by (auto simp: add_part_def Let_def lookup_episode_def)
  next
    case (Some existing_ep)
    with assms c p show ?thesis
      by (cases "combined_locations existing_ep")
         (auto simp: add_part_def Let_def lookup_episode_def file_path_list_def)
  qed
qed

lemma paths_tracked_add_part:
  assumes "paths_tracked iv" and "add_part absolute episode f iv = Inr iv'"
  shows "paths_tracked iv'"
  unfolding paths_tracked_def
proof (intro allI impI)
  fix s e r
  assume r: "lookup_episode iv' s e = Some r"
  show "(combined_locations r = None \<longrightarrow> locations (stored r) = []) \<and>
        combined_locations r \<noteq> Some []"
  proof (cases "s = seasonNumber episode \<and> e = index episode")
    case False
    with r lookup_add_part [OF assms(2), of s e] have "lookup_episode iv s e = Some r"
      by auto
    with assms(1) show ?thesis
      unfolding paths_tracked_def by blast
  next
    case True
    show ?thesis
    proof (cases "lookup_episode iv s e")
      case None
      with True r lookup_add_part [OF assms(2), of s e] show ?thesis
        by (auto split: if_splits)
    next
      case (Some existing_ep)
      with assms(1) have
        "(combined_locations existing_ep = None \<longrightarrow> locations (stored existing_ep) = []) \<and>
         combined_locations existing_ep \<noteq> Some []"
        unfolding paths_tracked_def by blast
      with Some True r lookup_add_part [OF assms(2), of s e] show ?thesis
        by (auto split: if_splits)
    qed
  qed
qed

lemma paths_tracked_add_parts:
  "paths_tracked iv \<Longrightarrow> paths_tracked (fst (add_parts absolute episode ps iv))"
proof (induction ps arbitrary: iv)
  case Nil
  then show ?case by simp
next
  case (Cons p ps)
  show ?case
  proof (cases p)
    case (Inl e)
    with Cons.prems show ?thesis by simp
  next
    case p: (Inr f)
    show ?thesis
    proof (cases "add_part absolute episode f iv")
      case (Inl e)
      with Cons.prems p show ?thesis by simp
    next
      case (Inr iv')
      with Cons.prems have "paths_tracked iv'"
        by (auto intro: paths_tracked_add_part)
      with Cons.IH Inr p show ?thesis by simp
    qed
  qed
qed

lemma paths_tracked_add_episodes:
  "paths_tracked iv \<Longrightarrow> paths_tracked (fst (add_episodes absolute episodes iv))"
proof (induction episodes arbitrary: iv)
  case Nil
  then show ?case by simp
next
  case (Cons episode episodes)
  let ?r = "add_parts absolute episode (iterParts episode) (ensure_season (seasonNumber episode) iv)"
  have t: "paths_tracked (fst ?r)"
    using Cons.prems by (intro paths_tracked_add_parts paths_tracked_ensure_season)
  obtain iv' raised where r: "?r = (iv', raised)"
    by (cases ?r)
  show ?case
  proof (cases raised)
    case None
    with r have "add_episodes absolute (episode # episodes) iv = add_episodes absolute episodes iv'"
      by simp
    with Cons.IH [of iv'] t r show ?thesis by simp
  next
    case (Some e)
    with r have "fst (add_episodes absolute (episode # episodes) iv) = iv'"
      by simp
    with t r show ?thesis by simp
  qed
qed

lemma paths_tracked_build_inventory: "paths_tracked (build_inventory absolute show_episodes)"
  by (simp add: build_inventory_def paths_tracked_empty paths_tracked_add_episodes split: sum.splits)

lemma classify_absent:
  "lookup_episode iv s e = None \<Longrightarrow> classify iv s e = (True, False, [])"
  by (auto simp: lookup_episode_def classify_def split: option.splits)

lemma classify_present:
  assumes "paths_tracked iv" and "lookup_episode iv s e = Some r"
  shows "classify iv s e = (False, occurrence_count iv s e > 1, join newline (file_path_list r))"
proof -
  from assms have a: "combined_locations r = None \<longrightarrow> locations (stored r) = []"
    and b: "combined_locations r \<noteq> Some []"
    unfolding paths_tracked_def by blast+
  from assms(2) a b show ?thesis
    by (auto simp: lookup_episode_def classify_def occurrence_count_def file_path_list_def
        split: option.splits)
qed

lemma cell_at_append:
  "cell_at (sh @ [(r, c, v)]) row col = (if r = row \<and> c = col then Some v else cell_at sh row col)"
  by (simp add: cell_at_def)

section \<open>The rows of one show in closed form\<close>

lemma perform_append:
  "perform c row col sh =
     (case perform c row col [] of Inl e \<Rightarrow> Inl e | Inr new \<Rightarrow> Inr (sh @ new))"
proof (cases c)
  case (CallWriteString v)
  then show ?thesis by (cases v) simp_all
qed simp_all

lemma write_cells_append:
  "write_cells row col cs sh =
     (sh @ fst (write_cells row col cs []), snd (write_cells row col cs []))"
proof (induction cs arbitrary: col sh)
  case Nil
  show ?case by simp
next
  case (Cons c cs)
  show ?case
  proof (cases "perform c row col []")
    case (Inl e)
    then have "perform c row col sh = Inl e"
      by (subst perform_append) simp
    with Inl show ?thesis by simp
  next
    case (Inr new)
    then have p: "perform c row col sh = Inr (sh @ new)"
      by (subst perform_append) simp
    have a: "write_cells row (col + 1) cs (sh @ new) =
               (sh @ new @ fst (write_cells row (col + 1) cs []), snd (write_cells row (col + 1) cs []))"
      using Cons.IH [of "col + 1" "sh @ new"] by simp
    have b: "write_cells row (col + 1) cs new =
               (new @ fst (write_cells row (col + 1) cs []), snd (write_cells row (col + 1) cs []))"
      using Cons.IH [of "col + 1" new] by simp
    show ?thesis
      using Inr p a b by simp
  qed
qed

lemma emit_row_append:
  "emit_row fx iv sn nm n e sh row =
     (sh @ fst (emit_row fx iv sn nm n e [] row), snd (emit_row fx iv sn nm n e [] row))"
  unfolding emit_row_def Let_def
  by (simp only: split_beta) (rule write_cells_append)

lemma emit_row_outcome:
  "snd (emit_row fx iv (s_number s) (season_name_of s) n e sh row) =
     (if writable (s, e) then None else Some (name_error (s, e)))"
  by (cases "season_name_of s"; cases "episode_title_of e")
     (simp_all add: emit_row_def Let_def split_beta writable_def name_error_def
        episode_title_of_def)

lemma emit_row_closed:
  "emit_row fx iv (s_number s) (season_name_of s) (length (s_episodes s)) e sh row =
     (sh @ row_at fx iv row s e, if writable (s, e) then None else Some (name_error (s, e)))"
  by (subst emit_row_append) (simp add: row_at_def emit_row_outcome)

lemma emit_rows_write_rows:
  "emit_rows fx iv (s_number s) (season_name_of s) (length (s_episodes s)) eps (sh, r) =
     write_rows fx iv (map (Pair s) eps) (sh, r)"
  by (induction eps arbitrary: sh r) (simp_all split: prod.splits option.splits)

lemma write_rows_append:
  "write_rows fx iv (xs @ ys) (sh, r) =
     (case write_rows fx iv xs (sh, r) of
        (sh', Inl x) \<Rightarrow> (sh', Inl x)
      | (sh', Inr r') \<Rightarrow> write_rows fx iv ys (sh', r'))"
  by (induction xs arbitrary: sh r) (simp_all split: prod.splits option.splits)

lemma canonical_episodes_Cons:
  "canonical_episodes (s # ss) = map (Pair s) (s_episodes s) @ canonical_episodes ss"
  by (simp add: canonical_episodes_def)

lemma reconcile_seasons_write_rows:
  "reconcile_seasons fx iv ss (sh, r) = write_rows fx iv (canonical_episodes ss) (sh, r)"
proof (induction ss arbitrary: sh r)
  case Nil
  show ?case by (simp add: canonical_episodes_def)
next
  case (Cons s ss)
  show ?case
  proof (cases "s_episodes s = []")
    case True
    then show ?thesis
      by (simp add: Cons.IH canonical_episodes_Cons)
  next
    case False
    have e: "emit_rows fx iv (s_number s) (case s_name s of None \<Rightarrow> PStr [] | Some v \<Rightarrow> v)
               (length (s_episodes s)) (s_episodes s) (sh, r) =
             write_rows fx iv (map (Pair s) (s_episodes s)) (sh, r)"
      using emit_rows_write_rows [of fx iv s "s_episodes s" sh r]
      by (simp add: season_name_of_def)
    from False show ?thesis
      by (simp add: Let_def e canonical_episodes_Cons write_rows_append Cons.IH
          split: prod.splits sum.splits)
  qed
qed

lemma reached_Cons: "reached (se # rest) = (if writable se then se # reached rest else [se])"
  by (simp add: reached_def)

lemma raised_Cons:
  "raised (se # rest) = (if writable se then raised rest else Some (name_error se))"
  by (simp add: raised_def)

lemma rows_from_Nil: "rows_from fx iv r [] = []"
  by (simp add: rows_from_def)

lemma rows_from_Cons:
  "rows_from fx iv r (se # rest) = row_at fx iv r (fst se) (snd se) @ rows_from fx iv (Suc r) rest"
  by (simp add: rows_from_def split_beta)

lemma write_rows_closed:
  "write_rows fx iv canon (sh, r) =
     (sh @ rows_from fx iv r (reached canon),
      case raised canon of None \<Rightarrow> Inr (r + length canon) | Some x \<Rightarrow> Inl x)"
proof (induction canon arbitrary: sh r)
  case Nil
  show ?case by (simp add: reached_def raised_def rows_from_Nil)
next
  case (Cons se rest)
  obtain s e where se: "se = (s, e)"
    by (cases se)
  show ?case
  proof (cases "writable (s, e)")
    case True
    then show ?thesis
      by (simp add: se emit_row_closed Cons.IH reached_Cons raised_Cons rows_from_Cons
          split: option.splits)
  next
    case False
    then show ?thesis
      by (simp add: se emit_row_closed reached_Cons raised_Cons rows_from_Cons rows_from_Nil)
  qed
qed

lemma reconcile_seasons_closed:
  "reconcile_seasons fx iv ss (sh, r) =
     (sh @ show_rows fx iv ss r,
      case raised (canonical_episodes ss) of
        None \<Rightarrow> Inr (r + length (canonical_episodes ss))
      | Some x \<Rightarrow> Inl x)"
  by (simp add: reconcile_seasons_write_rows write_rows_closed show_rows_def)

lemma raised_None: "(raised canon = None) = list_all writable canon"
  by (induction canon) (simp_all add: raised_Cons, simp add: raised_def)

lemma reached_writable: "list_all writable canon \<Longrightarrow> reached canon = canon"
  by (induction canon) (simp_all add: reached_Cons, simp add: reached_def)

lemma reached_completed:
  "reached canon = completed canon @ take 1 (dropWhile writable canon)"
  by (simp add: reached_def completed_def)

lemma completed_writable: "list_all writable canon \<Longrightarrow> completed canon = canon"
  by (simp add: completed_def list_all_iff)

lemma length_reached: "length (reached canon) \<le> length canon"
  by (induction canon) (simp_all add: reached_Cons, simp add: reached_def)

lemma nth_reached:
  assumes "k < length (completed canon)"
  shows "reached canon ! k = canon ! k \<and> writable (canon ! k)"
proof -
  from assms have k: "k < length (takeWhile writable canon)"
    by (simp add: completed_def)
  then have n: "takeWhile writable canon ! k = canon ! k"
    by (rule takeWhile_nth)
  from k have "takeWhile writable canon ! k \<in> set (takeWhile writable canon)"
    by (rule nth_mem)
  then have "writable (takeWhile writable canon ! k)"
    by (rule set_takeWhileD [THEN conjunct2])
  with k n show ?thesis
    by (simp add: reached_def nth_append)
qed

lemma cells_written_pos: "0 < cells_written se"
  by (simp add: cells_written_def)

lemma positions_row_at:
  "positions (row_at fx iv row s e) = map (Pair row) [0 ..< cells_written (s, e)]"
  by (cases "season_name_of s"; cases "episode_title_of e")
     (simp_all add: row_at_def emit_row_def Let_def split_beta positions_def cells_written_def
        episode_title_of_def upt_rec numeral_eq_Suc)

lemma map_fst_positions: "map fst (positions sh) = map fst sh"
  by (simp add: positions_def split_beta)

lemma map_fst_row_at: "map fst (row_at fx iv row s e) = replicate (cells_written (s, e)) row"
proof -
  have "map fst (row_at fx iv row s e) = map fst (positions (row_at fx iv row s e))"
    by (simp add: map_fst_positions)
  also have "\<dots> = replicate (cells_written (s, e)) row"
    by (simp add: positions_row_at comp_def map_replicate_const)
  finally show ?thesis .
qed

lemma set_rows_from:
  "fst ` set (rows_from fx iv r canon) = {r ..< r + length canon}"
proof (induction canon arbitrary: r)
  case Nil
  show ?case by (simp add: rows_from_Nil)
next
  case (Cons se rest)
  have "fst ` set (row_at fx iv r (fst se) (snd se)) = {r}"
    using map_fst_row_at [of fx iv r "fst se" "snd se"] cells_written_pos [of se]
    by (metis list.set_map prod.collapse set_replicate less_numeral_extra(3))
  then show ?case
    using Cons.IH [of "Suc r"] by (auto simp: rows_from_Cons image_Un)
qed

lemma remdups_replicate_append:
  assumes "0 < k" and "r \<notin> set ys"
  shows "remdups (replicate k r @ ys) = r # remdups ys"
proof -
  have "remdups (replicate (Suc m) r @ ys) = r # remdups ys" for m
    using assms(2) by (induction m) auto
  with assms(1) show ?thesis
    by (cases k) auto
qed

lemma rows_of_rows_from: "rows_of (rows_from fx iv r canon) = [r ..< r + length canon]"
proof (induction canon arbitrary: r)
  case Nil
  show ?case by (simp add: rows_from_Nil rows_of_def)
next
  case (Cons se rest)
  have notin: "r \<notin> set (map fst (rows_from fx iv (Suc r) rest))"
    using set_rows_from [of fx iv "Suc r" rest] by auto
  have step: "[r ..< r + length (se # rest)] = r # [Suc r ..< Suc r + length rest]"
    by (simp add: upt_rec)
  show ?case
    unfolding step
    using Cons.IH [of "Suc r"] remdups_replicate_append [OF cells_written_pos notin, of se]
    by (simp add: rows_of_def rows_from_Cons map_fst_row_at)
qed

lemma sorted_rows_from: "sorted (map fst (rows_from fx iv r canon))"
proof (induction canon arbitrary: r)
  case Nil
  show ?case by (simp add: rows_from_Nil)
next
  case (Cons se rest)
  have "\<forall>y \<in> set (map fst (rows_from fx iv (Suc r) rest)). r \<le> y"
    using set_rows_from [of fx iv "Suc r" rest] by auto
  then show ?case
    using Cons.IH [of "Suc r"]
    by (simp add: rows_from_Cons map_fst_row_at sorted_append)
qed

lemma distinct_positions_rows_from: "distinct (positions (rows_from fx iv r canon))"
proof (induction canon arbitrary: r)
  case Nil
  show ?case by (simp add: rows_from_Nil positions_def)
next
  case (Cons se rest)
  have later: "\<forall>p \<in> set (positions (rows_from fx iv (Suc r) rest)). fst p \<noteq> r"
  proof
    fix p
    assume "p \<in> set (positions (rows_from fx iv (Suc r) rest))"
    then have "fst p \<in> set (map fst (positions (rows_from fx iv (Suc r) rest)))"
      by simp
    then have "fst p \<in> fst ` set (rows_from fx iv (Suc r) rest)"
      by (simp add: map_fst_positions)
    then show "fst p \<noteq> r"
      using set_rows_from [of fx iv "Suc r" rest] by auto
  qed
  have app: "positions (xs @ ys) = positions xs @ positions ys" for xs ys
    by (simp add: positions_def)
  have "distinct (map (Pair r) [0 ..< cells_written se])"
    by (simp add: distinct_map inj_on_def)
  with later Cons.IH [of "Suc r"] show ?case
    by (auto simp: rows_from_Cons app positions_row_at)
qed

lemma rows_from_append:
  "rows_from fx iv r (xs @ ys) = rows_from fx iv r xs @ rows_from fx iv (r + length xs) ys"
  by (induction xs arbitrary: r) (simp_all add: rows_from_Nil rows_from_Cons)

lemma cell_at_distinct:
  assumes "distinct (positions new)" and "(row, col, v) \<in> set new"
  shows "cell_at (old @ new) row col = Some v"
proof -
  let ?f = "\<lambda>(r, c, v). ((r, c), v)"
  have d: "distinct (map fst (rev (map ?f new)))"
    using assms(1) by (simp add: positions_def rev_map [symmetric] comp_def case_prod_unfold)
  have "((row, col), v) \<in> set (rev (map ?f new))"
    using assms(2) by force
  with d have "map_of (rev (map ?f new)) (row, col) = Some v"
    by (rule map_of_is_SomeI)
  then show ?thesis
    by (simp add: cell_at_def map_add_def)
qed

lemma cell_at_rows_from:
  assumes "k < length canon" and "(r + k, c, v) \<in> set (row_at fx iv (r + k) (fst (canon ! k)) (snd (canon ! k)))"
  shows "cell_at (sh @ rows_from fx iv r canon) (r + k) c = Some v"
proof -
  from assms(1) have "canon = take k canon @ canon ! k # drop (Suc k) canon"
    by (simp add: id_take_nth_drop)
  then have "rows_from fx iv r canon =
      rows_from fx iv r (take k canon) @
      rows_from fx iv (r + length (take k canon)) (canon ! k # drop (Suc k) canon)"
    by (metis rows_from_append)
  with assms(1) have "set (row_at fx iv (r + k) (fst (canon ! k)) (snd (canon ! k)))
      \<subseteq> set (rows_from fx iv r canon)"
    by (auto simp: rows_from_Cons min_def)
  with assms(2) have "(r + k, c, v) \<in> set (rows_from fx iv r canon)"
    by blast
  with distinct_positions_rows_from show ?thesis
    by (rule cell_at_distinct)
qed

lemma row_at_classified:
  assumes "writable (s, e)"
  shows "(row, 9, WriteBoolean (fst (classify iv (s_number s) (ep_number e)))) \<in> set (row_at fx iv row s e)"
    and "(row, 10, WriteBoolean (fst (snd (classify iv (s_number s) (ep_number e))))) \<in> set (row_at fx iv row s e)"
    and "(row, 12, WriteString (snd (snd (classify iv (s_number s) (ep_number e))))) \<in> set (row_at fx iv row s e)"
  using assms
  by (cases "season_name_of s"; cases "episode_title_of e";
      simp add: row_at_def emit_row_def Let_def split_beta writable_def episode_title_of_def)+

lemma column_append: "column c (xs @ ys) = column c xs @ column c ys"
  by (simp add: column_def)

lemma column_row_at:
  "column 3 (row_at fx iv row s e) = [(row, Write (PInt (int (num_seasons fx))))]"
  "column 4 (row_at fx iv row s e) = [(row, Write (py_int_opt (s_number s)))]"
  by (cases "season_name_of s"; cases "episode_title_of e";
      simp add: row_at_def emit_row_def Let_def split_beta column_def episode_title_of_def)+

lemma column_row_at_writable:
  assumes "writable (s, e)"
  shows "column 7 (row_at fx iv row s e) = [(row, Write (py_int_opt (ep_number e)))]"
    and "column 11 (row_at fx iv row s e) = [(row, WriteString (py_str (episode_title_of e)))]"
  using assms
  by (cases "season_name_of s"; cases "episode_title_of e";
      simp add: row_at_def emit_row_def Let_def split_beta column_def writable_def
        episode_title_of_def)+

lemma column_rows_from:
  assumes "\<And>row s e. (s, e) \<in> set canon \<Longrightarrow> column c (row_at fx iv row s e) = [(row, g s e)]"
  shows "column c (rows_from fx iv r canon) = map (\<lambda>(row, s, e). (row, g s e)) (enumerate r canon)"
  using assms
proof (induction canon arbitrary: r)
  case Nil
  show ?case by (simp add: rows_from_Nil column_def)
next
  case (Cons se rest)
  obtain s e where se: "se = (s, e)"
    by (cases se)
  from Cons.prems have "column c (row_at fx iv r s e) = [(r, g s e)]"
    by (simp add: se)
  moreover have "column c (rows_from fx iv (Suc r) rest) =
      map (\<lambda>(row, s, e). (row, g s e)) (enumerate (Suc r) rest)"
    using Cons.prems by (intro Cons.IH) simp
  ultimately show ?case
    by (simp add: rows_from_Cons column_append se)
qed

lemma column_show_rows:
  "column 3 (show_rows fx iv ss r) =
     map (\<lambda>(row, s, e). (row, Write (PInt (int (num_seasons fx)))))
       (enumerate r (reached (canonical_episodes ss)))"
  "column 4 (show_rows fx iv ss r) =
     map (\<lambda>(row, s, e). (row, Write (py_int_opt (s_number s))))
       (enumerate r (reached (canonical_episodes ss)))"
  unfolding show_rows_def
  by (rule column_rows_from, simp add: column_row_at)+

section \<open>One call of process_show\<close>

lemma process_show_success:
  assumes "get_tvdb_data (env_client ev) (env_clock ev) (env_write_error ev) (cache w)
             (title shw) (year shw) (extract_tvdb_id (guids shw)) = (Inr data, files', evs)"
  shows "process_show ev shw lib w r =
     (w\<lparr>cache := files', calls := calls w @ evs,
        main_sheet := main_sheet w @
          show_rows \<lparr>plex_library_title = lib, show_title = title shw, show_year = year shw,
                     num_seasons = length (official_seasons (series data))\<rparr>
            (build_inventory (env_absolute ev) (fetch_episodes shw)) (seasons data) r\<rparr>,
      case raised (canonical_episodes (seasons data)) of
        None \<Rightarrow> Inr (r + length (canonical_episodes (seasons data)))
      | Some x \<Rightarrow> Inl x)"
  using assms by (simp add: process_show_def Let_def reconcile_seasons_closed)

lemma process_show_failure:
  assumes "get_tvdb_data (env_client ev) (env_clock ev) (env_write_error ev) (cache w)
             (title shw) (year shw) (extract_tvdb_id (guids shw)) = (Inl error, files', evs)"
  shows "process_show ev shw lib w r =
     (if contains ''Not found'' error
      then w\<lparr>cache := files', calls := calls w @ evs,
             not_found_sheet := write_error_row (not_found_sheet w) lib (title shw) (year shw) error\<rparr>
      else w\<lparr>cache := files', calls := calls w @ evs,
             error_sheet := write_error_row (error_sheet w) lib (title shw) (year shw) error\<rparr>,
      Inr r)"
  using assms by (simp add: process_show_def Let_def)

lemma map_snd_canonical_episodes:
  "map snd (canonical_episodes ss) = concat (map s_episodes ss)"
  by (induction ss) (simp_all add: canonical_episodes_def comp_def)

lemma complete_fetch_episodes:
  assumes "complete_fetch cl data"
  shows "catalog_episodes cl (series data) = map snd (canonical_episodes (seasons data))"
proof -
  let ?h = "\<lambda>x :: string + season_data. case x of Inl e \<Rightarrow> [] | Inr sd \<Rightarrow> s_episodes sd"
  have "map (episodes_of cl) (filter fetched_season (series_seasons (series data))) =
        map ?h (map (\<lambda>s. get_season_extended cl (season_id s))
                 (filter fetched_season (series_seasons (series data))))"
    by (simp add: episodes_of_def comp_def)
  also have "\<dots> = map ?h (map Inr (seasons data))"
    using assms by (simp add: complete_fetch_def)
  also have "\<dots> = map s_episodes (seasons data)"
    by (simp add: comp_def)
  finally show ?thesis
    by (simp add: catalog_episodes_def map_snd_canonical_episodes)
qed

lemma enumerate_map_snd:
  "map (\<lambda>(row, s, e). (row, g e)) (enumerate r ps) =
   map (\<lambda>(row, e). (row, g e)) (enumerate r (map snd ps))"
  by (induction ps arbitrary: r) auto

lemma sum_list_nonempty:
  "sum_list (map (\<lambda>s. length (f s)) (filter (\<lambda>s. P s \<and> f s \<noteq> []) xs)) =
   length (concat (map f (filter P xs)))"
  by (induction xs) auto

lemma fetch_seasons_complete:
  assumes "fetch_seasons cl ss = (Inr fetched, evs)"
    and "\<forall>s \<in> set ss. fetched_season s \<longrightarrow> (\<exists>sd. get_season_extended cl (season_id s) = Inr sd)"
  shows "map (\<lambda>s. get_season_extended cl (season_id s)) (filter fetched_season ss) = map Inr fetched"
  using assms
proof (induction ss arbitrary: fetched evs)
  case Nil
  then show ?case by simp
next
  case (Cons s ss)
  show ?case
  proof (cases "skips_details s")
    case (Inl e)
    with Cons.prems show ?thesis by simp
  next
    case (Inr skip)
    show ?thesis
    proof (cases skip)
      case True
      with Inr Cons show ?thesis by (simp add: fetched_season_def)
    next
      case False
      with Inr have f: "fetched_season s" by (simp add: fetched_season_def)
      with Cons.prems(2) obtain sd where sd: "get_season_extended cl (season_id s) = Inr sd"
        by auto
      obtain later evs' where l: "fetch_seasons cl ss = (later, evs')"
        by (cases "fetch_seasons cl ss")
      with Cons.prems(1) Inr False sd obtain rest where
        "later = Inr rest" "fetched = sd # rest"
        by (cases later) auto
      with Cons.IH [of rest evs'] Cons.prems(2) l f sd show ?thesis
        by simp
    qed
  qed
qed

lemma ex_client_simps:
  "search ex_client = (\<lambda>t. Inr [])"
  "get_series_extended ex_client = (\<lambda>i. Inr ex_series)"
  "get_season_extended ex_client = (\<lambda>i. Inr ex_season)"
  by (simp_all add: ex_client_def)

lemma ex_env_simps:
  "env_client ex_env = ex_client" "env_clock ex_env = 0"
  "env_write_error ex_env = ex_writable" "env_absolute ex_env = ex_absolute"
  by (simp_all add: ex_env_def)

lemma ex_show_simps:
  "title ex_show = ''Show''" "year ex_show = PInt 2008"
  "extract_tvdb_id (guids ex_show) = PStr ''42''"
  "fetch_episodes ex_show = Inr [hd ex_episodes]"
  by (simp_all add: ex_show_def)

lemma ex_fetched: "filter fetched_season (series_seasons ex_series) = series_seasons ex_series"
  by (simp add: ex_series_def fetched_season_def skips_details_def ex_season_type_def)

lemma ex_fetch_seasons:
  "fetch_seasons ex_client (series_seasons ex_series) =
     (Inr [ex_season], [GetSeasonExtended (Some 10)])"
  by (simp add: ex_series_def skips_details_def ex_season_type_def ex_client_simps)

lemma ex_load:
  "load_show_data ex_client 0 ex_writable Map.empty (PStr ''42'') = (Inr ex_data, ex_cache, ex_calls)"
  by (simp add: load_show_data_def is_cache_valid_def get_cache_filename_def Let_def
      ex_client_simps ex_fetch_seasons ex_data_def ex_cache_def ex_calls_def)

lemma ex_get:
  "get_tvdb_data ex_client 0 ex_writable Map.empty ''Show'' (PInt 2008) (PStr ''42'') =
     (Inr ex_data, ex_cache, ex_calls)"
  by (simp add: get_tvdb_data_def resolve_tvdb_id_def ex_load)

lemma ex_complete: "complete_fetch ex_client ex_data"
  by (simp add: complete_fetch_def ex_data_def ex_fetched) (simp add: ex_series_def ex_client_simps)

lemma ex_resolved:
  "get_tvdb_data (env_client ex_env) (env_clock ex_env) (env_write_error ex_env)
     (cache (setup_worksheets Map.empty)) (title ex_show) (year ex_show)
     (extract_tvdb_id (guids ex_show)) = (Inr ex_data, ex_cache, ex_calls)"
  by (simp add: ex_env_simps ex_show_simps setup_worksheets_def ex_get)

lemma ex_catalog_episodes:
  "catalog_episodes ex_client ex_series = [ex_episode 1 ''Pilot'', ex_episode 2 ''Second'']"
  by (simp add: catalog_episodes_def ex_fetched)
     (simp add: ex_series_def episodes_of_def ex_client_simps ex_season_def)


lemma ex_canonical_episodes:
  "canonical_episodes [ex_season] =
     [(ex_season, ex_episode 1 ''Pilot''), (ex_season, ex_episode 2 ''Second'')]"
  by (simp add: canonical_episodes_def) (simp add: ex_season_def)

lemma ex_all_writable: "list_all writable (canonical_episodes [ex_season])"
  unfolding ex_canonical_episodes
  by (simp add: writable_def season_name_of_def episode_title_of_def ex_season_def ex_episode_def)

lemma ex_reached: "reached (canonical_episodes [ex_season]) = canonical_episodes [ex_season]"
  by (rule reached_writable) (rule ex_all_writable)

section \<open>The example show, evaluated\<close>

lemma ex_official_seasons: "official_seasons ex_series = []"
  by (simp add: official_seasons_def ex_series_def ex_season_type_def)

lemma ex_process_show:
  "process_show ex_env ex_show ''TV'' (setup_worksheets Map.empty) 1 =
     ((setup_worksheets Map.empty)\<lparr>cache := ex_cache, calls := ex_calls,
        main_sheet := main_sheet (setup_worksheets Map.empty) @
          show_rows \<lparr>plex_library_title = ''TV'', show_title = ''Show'', show_year = PInt 2008,
                     num_seasons = 0\<rparr>
            (build_inventory ex_absolute (Inr [hd ex_episodes])) [ex_season] 1\<rparr>,
      Inr 3)"
proof -
  have "raised (canonical_episodes [ex_season]) = None"
    by (simp add: raised_None ex_all_writable)
  with process_show_success [OF ex_resolved, of "''TV''" 1] show ?thesis
    by (simp add: ex_data_def ex_official_seasons ex_env_simps ex_show_simps setup_worksheets_def
        ex_canonical_episodes)
qed

lemma ex_readonly_simps:
  "env_client ex_env_readonly = ex_client" "env_clock ex_env_readonly = 0"
  "env_write_error ex_env_readonly = ex_unwritable"
  "env_absolute ex_env_readonly = ex_absolute"
  by (simp_all add: ex_env_readonly_def ex_env_def)

lemma ex_load_readonly:
  "load_show_data ex_client 0 ex_unwritable Map.empty (PStr ''42'') =
     (Inl ''TVDB API error: Permission denied'', Map.empty, ex_calls)"
  by (simp add: load_show_data_def is_cache_valid_def get_cache_filename_def Let_def
      ex_client_simps ex_fetch_seasons ex_calls_def)

lemma ex_get_readonly:
  "get_tvdb_data (env_client ex_env_readonly) (env_clock ex_env_readonly)
     (env_write_error ex_env_readonly) (cache (setup_worksheets Map.empty)) (title ex_show)
     (year ex_show) (extract_tvdb_id (guids ex_show)) =
     (Inl ''TVDB API error: Permission denied'', Map.empty, ex_calls)"
  by (simp add: ex_readonly_simps ex_show_simps setup_worksheets_def)
     (simp add: get_tvdb_data_def resolve_tvdb_id_def ex_load_readonly)

section \<open>Cache or catalog\<close>

lemma load_show_data_usable:
  assumes "cache_usable now files (get_cache_filename tvdb_id)"
  shows "\<exists>data. cached_blob files (get_cache_filename tvdb_id) = Some data \<and>
           load_show_data cl now write_error files tvdb_id =
             (Inr data, files, [CacheRead (get_cache_filename tvdb_id)])"
  using assms
  by (auto simp: cache_usable_def cached_blob_def load_show_data_def is_cache_valid_def Let_def
      split: option.splits)

lemma load_show_data_fresh:
  assumes "\<not> cache_usable now files (get_cache_filename tvdb_id)"
  shows "GetSeriesExtended tvdb_id \<in> set (snd (snd (load_show_data cl now write_error files tvdb_id)))"
    and "fst (load_show_data cl now write_error files tvdb_id) = Inr data \<Longrightarrow>
         CacheWrite (get_cache_filename tvdb_id)
           \<in> set (snd (snd (load_show_data cl now write_error files tvdb_id))) \<and>
         fst (snd (load_show_data cl now write_error files tvdb_id)) (get_cache_filename tvdb_id) =
           Some \<lparr>mtime = now, content = Some data\<rparr>"
proof -
  from assms have c: "(if is_cache_valid now files (get_cache_filename tvdb_id)
            then (case files (get_cache_filename tvdb_id) of None \<Rightarrow> None | Some f \<Rightarrow> content f)
            else None) = None"
    by (auto simp: cache_usable_def is_cache_valid_def Let_def split: option.splits)
  show "GetSeriesExtended tvdb_id \<in> set (snd (snd (load_show_data cl now write_error files tvdb_id)))"
    unfolding load_show_data_def Let_def c
    by (auto split: sum.splits prod.splits option.splits)
  assume "fst (load_show_data cl now write_error files tvdb_id) = Inr data"
  then show "CacheWrite (get_cache_filename tvdb_id)
           \<in> set (snd (snd (load_show_data cl now write_error files tvdb_id))) \<and>
         fst (snd (load_show_data cl now write_error files tvdb_id)) (get_cache_filename tvdb_id) =
           Some \<lparr>mtime = now, content = Some data\<rparr>"
    unfolding load_show_data_def Let_def c
    by (auto split: sum.splits prod.splits option.splits)
qed

lemma ex_load_unreadable:
  "load_show_data ex_client 0 ex_writable ex_unreadable_cache (PStr ''42'') =
     (Inr ex_data, ex_cache, CacheRead ''./cache/tvdb_42.json'' # ex_calls)"
  by (simp add: load_show_data_def is_cache_valid_def get_cache_filename_def Let_def
      ex_client_simps ex_fetch_seasons ex_data_def ex_cache_def ex_calls_def
      ex_unreadable_cache_def CACHE_EXPIRY_DAYS_def microseconds_per_day_def)

lemma ex_cache_usable: "cache_usable 0 ex_cache (get_cache_filename (PStr ''42''))"
  by (simp add: cache_usable_def ex_cache_def get_cache_filename_def CACHE_EXPIRY_DAYS_def
      microseconds_per_day_def)

lemma ex_cache_stale: "\<not> cache_usable fifteen_days ex_cache (get_cache_filename (PStr ''42''))"
  by (simp add: cache_usable_def ex_cache_def get_cache_filename_def CACHE_EXPIRY_DAYS_def
      microseconds_per_day_def fifteen_days_def)

lemma ex_load_stale:
  "load_show_data ex_client fifteen_days ex_writable ex_cache (PStr ''42'') =
     (Inr ex_data,
      [''./cache/tvdb_42.json'' \<mapsto> \<lparr>mtime = fifteen_days, content = Some ex_data\<rparr>], ex_calls)"
  by (simp add: load_show_data_def is_cache_valid_def get_cache_filename_def Let_def
      ex_client_simps ex_fetch_seasons ex_data_def ex_cache_def ex_calls_def
      CACHE_EXPIRY_DAYS_def microseconds_per_day_def fifteen_days_def)

section \<open>The choice among the search results\<close>

lemma year_matches_same_year: "year_matches yr result = same_year yr result"
  by (simp add: year_matches_def same_year_def reported_year_def)

lemma find_year_match_first:
  assumes "i < length results" and "year_matches yr (results ! i)"
    and "\<forall>j < i. \<not> year_matches yr (results ! j)"
  shows "find_year_match yr results = Some (results ! i)"
  using assms
proof (induction results arbitrary: i)
  case Nil
  then show ?case by simp
next
  case (Cons r rs)
  show ?case
  proof (cases i)
    case 0
    with Cons.prems show ?thesis by simp
  next
    case (Suc k)
    with Cons.prems have "\<not> year_matches yr r" by auto
    moreover from Suc Cons.prems have "find_year_match yr rs = Some (rs ! k)"
      by (intro Cons.IH) auto
    ultimately show ?thesis using Suc by simp
  qed
qed

lemma find_year_match_none:
  "\<forall>r \<in> set results. \<not> year_matches yr r \<Longrightarrow> find_year_match yr results = None"
  by (induction results) auto


lemma ex_search: "search ex_search_client ''Show'' = Inr ex_results"
  by (simp add: ex_search_client_def)

lemma str_2008: "str_int 2008 = ''2008''"
  by code_simp

lemma str_1980: "str_int 1980 = ''1980''"
  by code_simp

section \<open>Failed resolutions\<close>



lemma contains_not_found: "contains ''Not found'' ''Not found on TVDB''"
  by simp









section \<open>Inventory building up to a failure\<close>

lemma seasons_paired_empty: "seasons_paired empty_inventory"
  by (simp add: seasons_paired_def empty_inventory_def)

lemma seasons_paired_ensure_season:
  assumes "seasons_paired iv"
  shows "seasons_paired (ensure_season s iv)" and "plex_episodes (ensure_season s iv) s \<noteq> None"
  using assms by (auto simp: seasons_paired_def ensure_season_def split: option.splits)

lemma add_part_succeeds:
  assumes "seasons_paired iv" and "plex_episodes iv (seasonNumber episode) \<noteq> None"
  shows "\<exists>iv'. add_part absolute episode f iv = Inr iv' \<and> seasons_paired iv' \<and>
               plex_episodes iv' (seasonNumber episode) \<noteq> None"
proof -
  from assms obtain eps counts where
    "plex_episodes iv (seasonNumber episode) = Some eps"
    "plex_episodes_count iv (seasonNumber episode) = Some counts"
    unfolding seasons_paired_def by (metis option.exhaust)
  with assms(1) show ?thesis
    by (simp add: add_part_def Let_def seasons_paired_def)
qed

lemma add_parts_until_failure:
  assumes "seasons_paired iv" and "plex_episodes iv (seasonNumber episode) \<noteq> None"
  shows "fst (add_parts absolute episode ps iv) =
           fst (add_parts absolute episode (map Inr (files_before_failure ps)) iv) \<and>
         (snd (add_parts absolute episode ps iv) = None) = (\<not> list_ex isl ps) \<and>
         seasons_paired (fst (add_parts absolute episode ps iv))"
  using assms
proof (induction ps arbitrary: iv)
  case Nil
  then show ?case by simp
next
  case (Cons p ps)
  show ?case
  proof (cases p)
    case (Inl e)
    with Cons.prems show ?thesis by simp
  next
    case p: (Inr f)
    from add_part_succeeds [OF Cons.prems, where absolute = absolute and f = f] obtain iv' where
      iv': "add_part absolute episode f iv = Inr iv'" "seasons_paired iv'"
        "plex_episodes iv' (seasonNumber episode) \<noteq> None"
      by blast
    from Cons.IH [OF iv'(2) iv'(3)] have
      "fst (add_parts absolute episode ps iv') =
         fst (add_parts absolute episode (map Inr (files_before_failure ps)) iv')"
      "(snd (add_parts absolute episode ps iv') = None) = (\<not> list_ex isl ps)"
      "seasons_paired (fst (add_parts absolute episode ps iv'))"
      by blast+
    with iv'(1) p show ?thesis
      by (simp del: files_before_failure.simps add: files_before_failure.simps(3) [symmetric])
         (simp add: iv'(1))
  qed
qed

lemma add_episodes_no_failure:
  assumes "seasons_paired iv" and "\<forall>e \<in> set episodes. \<not> fails e"
  shows "snd (add_episodes absolute episodes iv) = None \<and>
         seasons_paired (fst (add_episodes absolute episodes iv))"
  using assms
proof (induction episodes arbitrary: iv)
  case Nil
  then show ?case by simp
next
  case (Cons episode episodes)
  let ?iv1 = "ensure_season (seasonNumber episode) iv"
  let ?r = "add_parts absolute episode (iterParts episode) ?iv1"
  from Cons.prems have nf: "\<not> list_ex isl (iterParts episode)"
    by (simp add: fails_def)
  from add_parts_until_failure [OF seasons_paired_ensure_season [OF Cons.prems(1)],
      where episode = episode and absolute = absolute and ps = "iterParts episode"] nf
  have s: "snd ?r = None" and q: "seasons_paired (fst ?r)"
    by auto
  obtain iv' where r: "?r = (iv', None)"
    using s by (cases ?r) auto
  with q Cons.IH [of iv'] Cons.prems(2) show ?case
    by simp
qed

lemma add_episodes_append:
  "add_episodes absolute (xs @ ys) iv =
     (case add_episodes absolute xs iv of
        (iv', None) \<Rightarrow> add_episodes absolute ys iv'
      | (iv', Some e) \<Rightarrow> (iv', Some e))"
proof (induction xs arbitrary: iv)
  case Nil
  show ?case by simp
next
  case (Cons x xs)
  obtain iv' raised where
    "add_parts absolute x (iterParts x) (ensure_season (seasonNumber x) iv) = (iv', raised)"
    by (cases "add_parts absolute x (iterParts x) (ensure_season (seasonNumber x) iv)")
  then show ?case
    by (cases raised) (simp_all add: Cons.IH)
qed

lemma build_inventory_until_failure:
  assumes "\<forall>e \<in> set before. \<not> fails e" and "fails failing"
  shows "build_inventory absolute (Inr (before @ failing # after)) =
         fst (add_parts absolute failing (map Inr (files_before_failure (iterParts failing)))
                (ensure_season (seasonNumber failing) (build_inventory absolute (Inr before))))"
proof -
  from add_episodes_no_failure [OF seasons_paired_empty assms(1), of absolute]
  obtain iv1 where b: "add_episodes absolute before empty_inventory = (iv1, None)"
    and q: "seasons_paired iv1"
    by (cases "add_episodes absolute before empty_inventory") auto
  let ?iv2 = "ensure_season (seasonNumber failing) iv1"
  let ?r = "add_parts absolute failing (iterParts failing) ?iv2"
  from add_parts_until_failure [OF seasons_paired_ensure_season [OF q],
      where episode = failing and absolute = absolute and ps = "iterParts failing"] assms(2)
  have f: "fst ?r = fst (add_parts absolute failing
                (map Inr (files_before_failure (iterParts failing))) ?iv2)"
    and s: "snd ?r \<noteq> None"
    by (auto simp: fails_def)
  from s obtain iv' e where r: "?r = (iv', Some e)"
    by (cases ?r) auto
  have "add_episodes absolute (before @ failing # after) empty_inventory = (iv', Some e)"
    by (simp add: add_episodes_append b r)
  with f r b show ?thesis
    by (simp add: build_inventory_def)
qed

lemma ex_failing_simps:
  "ex_failing_episodes = [] @ hd ex_failing_episodes # tl ex_failing_episodes"
  "fails (hd ex_failing_episodes)"
  "iterParts (hd ex_failing_episodes) = [Inl ''timed out'']"
  "seasonNumber (hd ex_failing_episodes) = Some 1"
  by (simp_all add: ex_failing_episodes_def fails_def)

lemma ex_show_failing_simps:
  "title ex_show_failing = ''Show''" "year ex_show_failing = PInt 2008"
  "extract_tvdb_id (guids ex_show_failing) = PStr ''42''"
  "fetch_episodes ex_show_failing = Inr ex_failing_episodes"
  by (simp_all add: ex_show_failing_def ex_show_def)

lemma ex_resolved_failing:
  "get_tvdb_data (env_client ex_env) (env_clock ex_env) (env_write_error ex_env)
     (cache (setup_worksheets Map.empty)) (title ex_show_failing) (year ex_show_failing)
     (extract_tvdb_id (guids ex_show_failing)) = (Inr ex_data, ex_cache, ex_calls)"
  by (simp add: ex_env_simps ex_show_failing_simps setup_worksheets_def ex_get)

section \<open>Claims\<close>

text \<open>
  C3. The claim: the "Number of Seasons" of every row is the number of seasons of the
  series record whose type is absent or "official", by the same test that selects the
  seasons whose episodes are fetched. The code at the example series, whose one season
  has the type object the catalog sends (its own \<^verbatim>\<open>type\<close> is "official"): line 182 fetches
  the season and its two episodes get their rows, but line 297 compares the type object
  itself with the string "official", counts no season, and column 3 holds 0 on both rows.
\<close>

theorem C3_season_count_differs:
  "subscript_type ex_season_type = Inr (JStr ''official'') \<and>
   series_seasons ex_series =
     [\<lparr>season_id = Some 10, season_number = Some 1, season_type = Some ex_season_type\<rparr>] \<and>
   filter fetched_season (series_seasons ex_series) = series_seasons ex_series \<and>
   official_seasons ex_series = [] \<and>
   column 3 (appended (main_sheet (setup_worksheets Map.empty))
     (main_sheet (fst (process_show ex_env ex_show ''TV'' (setup_worksheets Map.empty) 1)))) =
     [(1, Write (PInt 0)), (2, Write (PInt 0))]"
proof -
  have a: "subscript_type ex_season_type = Inr (JStr ''official'')"
    by (simp add: ex_season_type_def)
  have b: "series_seasons ex_series =
     [\<lparr>season_id = Some 10, season_number = Some 1, season_type = Some ex_season_type\<rparr>]"
    by (simp add: ex_series_def)
  have c: "column 3 (appended (main_sheet (setup_worksheets Map.empty))
     (main_sheet (fst (process_show ex_env ex_show ''TV'' (setup_worksheets Map.empty) 1)))) =
     [(1, Write (PInt 0)), (2, Write (PInt 0))]"
    unfolding ex_process_show
    by (simp add: appended_def column_show_rows ex_reached) (simp add: ex_canonical_episodes)
  show ?thesis
    by (intro conjI) (rule a, rule b, rule ex_fetched, rule ex_official_seasons, rule c)
qed

text \<open>
  C4. The claim: when the fetch from the catalog succeeds, a failure to write the
  aggregate to the cache is not fatal and the aggregate is still returned. The code at
  the example show with a cache directory that cannot be written: the series and its
  season are fetched, the write of lines 195 and 196 raises inside the \<^verbatim>\<open>try\<close> of line
  174, the resolver returns the error "TVDB API error: Permission denied", and the show
  gets a row on the error sheet and none on the main sheet.
\<close>

theorem C4_cache_write_failure_is_fatal:
  "get_series_extended ex_client (PStr ''42'') = Inr ex_series \<and>
   fetch_seasons ex_client (series_seasons ex_series) =
     (Inr [ex_season], [GetSeasonExtended (Some 10)]) \<and>
   env_write_error ex_env_readonly (get_cache_filename (PStr ''42'')) = Some ''Permission denied'' \<and>
   get_tvdb_data (env_client ex_env_readonly) (env_clock ex_env_readonly)
     (env_write_error ex_env_readonly) (cache (setup_worksheets Map.empty)) (title ex_show)
     (year ex_show) (extract_tvdb_id (guids ex_show)) =
     (Inl ''TVDB API error: Permission denied'', Map.empty, ex_calls) \<and>
   appended (error_sheet (setup_worksheets Map.empty))
     (error_sheet (fst (process_show ex_env_readonly ex_show ''TV'' (setup_worksheets Map.empty) 1))) =
     [(1, 0, WriteString ''TV''), (1, 1, WriteString ''Show''), (1, 2, Write (PInt 2008)),
      (1, 3, WriteString ''TVDB API error: Permission denied'')] \<and>
   main_sheet (fst (process_show ex_env_readonly ex_show ''TV'' (setup_worksheets Map.empty) 1)) =
     main_sheet (setup_worksheets Map.empty)"
proof -
  have a: "get_series_extended ex_client (PStr ''42'') = Inr ex_series"
    by (simp add: ex_client_simps)
  have b: "env_write_error ex_env_readonly (get_cache_filename (PStr ''42'')) =
      Some ''Permission denied''"
    by (simp add: ex_readonly_simps)
  note p = process_show_failure [OF ex_get_readonly, of "''TV''" 1]
  have c: "appended (error_sheet (setup_worksheets Map.empty))
     (error_sheet (fst (process_show ex_env_readonly ex_show ''TV'' (setup_worksheets Map.empty) 1))) =
     [(1, 0, WriteString ''TV''), (1, 1, WriteString ''Show''), (1, 2, Write (PInt 2008)),
      (1, 3, WriteString ''TVDB API error: Permission denied'')]"
    unfolding p by (simp add: write_error_row_def appended_def ex_show_simps)
  have d: "main_sheet (fst (process_show ex_env_readonly ex_show ''TV'' (setup_worksheets Map.empty) 1)) =
     main_sheet (setup_worksheets Map.empty)"
    unfolding p by simp
  show ?thesis
    by (intro conjI) (rule a, rule ex_fetch_seasons, rule b, rule ex_get_readonly, rule c, rule d)
qed

text \<open>
  C7. When no catalog identifier is given and the title search returns a non-empty list,
  the resolver selects the first result, in the order the provider returned them, whose
  reported year equals the given year, and goes on with the identifier of that result;
  when no result's year matches, it selects the first result of the list.
\<close>

theorem C7_year_match_selection:
  assumes no_id: "\<not> truthy tvdb_id"
    and found: "search cl ttl = Inr results"
    and nonempty: "results \<noteq> []"
  shows "(\<forall>i < length results.
            same_year yr (results ! i) \<and> (\<forall>j < i. \<not> same_year yr (results ! j)) \<longrightarrow>
            best_match yr results = Some (results ! i) \<and>
            resolve_tvdb_id cl ttl yr tvdb_id = (Inr (sr_tvdb_id (results ! i)), [Search ttl])) \<and>
         ((\<forall>r \<in> set results. \<not> same_year yr r) \<longrightarrow>
            best_match yr results = Some (results ! 0) \<and>
            resolve_tvdb_id cl ttl yr tvdb_id = (Inr (sr_tvdb_id (results ! 0)), [Search ttl]))"
proof (intro conjI allI impI)
  fix i
  assume i: "i < length results"
    and m: "same_year yr (results ! i) \<and> (\<forall>j < i. \<not> same_year yr (results ! j))"
  then have "find_year_match yr results = Some (results ! i)"
    by (intro find_year_match_first) (simp_all add: year_matches_same_year)
  then show b: "best_match yr results = Some (results ! i)"
    by (simp add: best_match_def)
  with no_id found nonempty
  show "resolve_tvdb_id cl ttl yr tvdb_id = (Inr (sr_tvdb_id (results ! i)), [Search ttl])"
    by (simp add: resolve_tvdb_id_def)
next
  assume "\<forall>r \<in> set results. \<not> same_year yr r"
  then have "find_year_match yr results = None"
    by (intro find_year_match_none) (simp add: year_matches_same_year)
  with nonempty show b: "best_match yr results = Some (results ! 0)"
    by (cases results) (simp_all add: best_match_def)
  with no_id found nonempty
  show "resolve_tvdb_id cl ttl yr tvdb_id = (Inr (sr_tvdb_id (results ! 0)), [Search ttl])"
    by (simp add: resolve_tvdb_id_def)
qed

theorem C7_year_match_selection_witness:
  "\<not> truthy PNone \<and> search ex_search_client ''Show'' = Inr ex_results \<and> ex_results \<noteq> [] \<and>
   same_year (PInt 2008) (ex_results ! 1) \<and> \<not> same_year (PInt 2008) (ex_results ! 0) \<and>
   resolve_tvdb_id ex_search_client ''Show'' (PInt 2008) PNone = (Inr (PStr ''42''), [Search ''Show'']) \<and>
   \<not> same_year (PInt 1980) (ex_results ! 0) \<and> \<not> same_year (PInt 1980) (ex_results ! 1) \<and>
   \<not> same_year (PInt 1980) (ex_results ! 2) \<and>
   resolve_tvdb_id ex_search_client ''Show'' (PInt 1980) PNone = (Inr (PStr ''7''), [Search ''Show''])"
proof -
  have n: "\<not> truthy PNone" "ex_results \<noteq> []"
    by (simp_all add: ex_results_def)
  have a: "same_year (PInt 2008) (ex_results ! 1)" "\<not> same_year (PInt 2008) (ex_results ! 0)"
    by (simp_all add: same_year_def reported_year_def ex_results_def str_2008)
  have b: "\<not> same_year (PInt 1980) (ex_results ! 0)" "\<not> same_year (PInt 1980) (ex_results ! 1)"
    "\<not> same_year (PInt 1980) (ex_results ! 2)"
    by (simp_all add: same_year_def reported_year_def ex_results_def str_1980)
  have b': "\<forall>r \<in> set ex_results. \<not> same_year (PInt 1980) r"
    by (simp add: same_year_def reported_year_def ex_results_def str_1980)
  note t = C7_year_match_selection [OF n(1) ex_search n(2)]
  from t [of "PInt 2008"] a have r1:
    "resolve_tvdb_id ex_search_client ''Show'' (PInt 2008) PNone =
       (Inr (sr_tvdb_id (ex_results ! 1)), [Search ''Show''])"
    by (auto simp: ex_results_def)
  from t [of "PInt 1980"] b' have r2:
    "resolve_tvdb_id ex_search_client ''Show'' (PInt 1980) PNone =
       (Inr (sr_tvdb_id (ex_results ! 0)), [Search ''Show''])"
    by blast
  from n a b r1 r2 ex_search show ?thesis
    by (simp add: ex_results_def)
qed




end
